theory Spec2Isabelle
  imports Complex_Main "HOL-Library.AList"
begin

section \<open>Data model of a match (app.py, new_machine_state)\<close>

text \<open>
  The scoring core of app.py keeps one dictionary per match. The dictionary is modelled
  as the record \<open>match\<close>; its nested dictionaries are records of their own. The two
  competitor keys "red" and "blue" are the datatype \<open>color\<close>, and a dictionary that always
  holds exactly these two keys (scores, round_wins, gamjeom, ivr_available) is a total
  function on \<open>color\<close>. The status strings that the code ever assigns are the datatype
  \<open>status\<close>. Python integers are \<open>int\<close>. Python floats (clock readings and the timer's
  remaining seconds) are idealised as \<open>real\<close>; the statements below use the source's own
  arithmetic expressions, in the source's order of operations.

  Every reading of \<open>time.monotonic()\<close> and \<open>time.time()\<close> is an explicit argument of the
  function that takes it, one argument per call site, so that two readings within one
  handler may differ.
\<close>

datatype color = Red | Blue

datatype status = Connecting | Running | Paused | Break | Over

type_synonym sid = string

record remote =
  name :: string
  connected_at :: real
  last_activity_mono :: "real option"
  tested :: bool

record vote =
  v_sid :: sid
  v_color :: color
  v_points :: int
  ts_mono :: real

record timer =
  running :: bool
  remaining :: real
  last_started_mono :: "real option"

text \<open>
  A history entry is \<open>{"op": "score", "color", "delta"}\<close> (with the key "by" when it
  comes from a quorum award) or \<open>{"op": "gamjeom", "color"}\<close>.
\<close>

datatype action = Op_score color int "sid set option" | Op_gamjeom color

record ivr =
  ivr_color :: color
  votes :: "sid set"

record match =
  created_at :: real
  num_refs_cfg :: int
  round_time :: int
  break_time :: int
  match_password :: string
  category :: string
  red_name :: string
  blue_name :: string
  rounds_to_win :: int
  ptg_gap :: int
  status :: status
  round_no :: int
  round_wins :: "color \<Rightarrow> int"
  scores :: "color \<Rightarrow> int"
  gamjeom :: "color \<Rightarrow> int"
  ivr_available :: "color \<Rightarrow> int"
  ivr_pending :: "ivr option"
  remotes :: "(sid \<times> remote) list"
  vote_buffer :: "vote list"
  timer :: timer
  history :: "action list"
  last_timer_emit_mono :: real

text \<open>
  \<open>remotes\<close> is the insertion-ordered dictionary sid -> referee entry, as an association
  list that the handlers only change through \<open>AList.update\<close> and \<open>AList.delete\<close>.

  Messages sent with \<open>emit\<close> are returned by each handler as a list of events. A
  snapshot message (state, timer, remote_status) is recorded by its name only: its
  payload is a function of the match at the moment of sending.
\<close>

datatype event =
    Ev_state
  | Ev_timer
  | Ev_remote_status
  | Ev_round_over "color option"
  | Ev_match_over color
  | Ev_ref_score_applied color int "sid set"
  | Ev_ref_press sid color int
  | Ev_toast string
  | Ev_force_setup string
  | Ev_ivr_overlay color nat
  | Ev_ivr_votes nat
  | Ev_ivr_result bool color
  | Ev_proceed_main
  | Ev_ref_join_result bool

datatype error = ValueError | TypeError

definition color_of :: "string \<Rightarrow> color option" where
  "color_of s = (if s = ''red'' then Some Red else if s = ''blue'' then Some Blue else None)"

definition or_default :: "string \<Rightarrow> string \<Rightarrow> string" where
  "or_default s d = (if s = [] then d else s)"

definition new_machine_state ::
  "real \<Rightarrow> int \<Rightarrow> int \<Rightarrow> int \<Rightarrow> string \<Rightarrow> string \<Rightarrow> string \<Rightarrow> string \<Rightarrow> match" where
  "new_machine_state wall num_refs round_t break_t passwd cat rname bname =
     \<lparr> created_at = wall,
       num_refs_cfg = num_refs,
       round_time = round_t,
       break_time = break_t,
       match_password = or_default passwd ''1234'',
       category = cat,
       red_name = take 24 (or_default rname ''RED''),
       blue_name = take 24 (or_default bname ''BLUE''),
       rounds_to_win = 2,
       ptg_gap = 12,
       status = Connecting,
       round_no = 1,
       round_wins = (\<lambda>c. 0),
       scores = (\<lambda>c. 0),
       gamjeom = (\<lambda>c. 0),
       ivr_available = (\<lambda>c. 1),
       ivr_pending = None,
       remotes = [],
       vote_buffer = [],
       timer = \<lparr> running = False, remaining = real_of_int round_t, last_started_mono = None \<rparr>,
       history = [],
       last_timer_emit_mono = 0 \<rparr>"

text \<open>The match that \<open>new_machine_state()\<close> builds from its default arguments.\<close>

definition demo :: match where
  "demo = new_machine_state 0 3 120 60 ''1234'' [] ''RED'' ''BLUE''"

section \<open>Utilities\<close>

text \<open>\<open>quorum_required\<close>: \<open>max(1, math.ceil(len(m["remotes"]) / 2))\<close>.\<close>

definition quorum_required :: "match \<Rightarrow> int" where
  "quorum_required m = max 1 \<lceil>real (length (remotes m)) / 2\<rceil>"

text \<open>\<open>push_history\<close>: append, then keep the last 128 entries.\<close>

definition push_history :: "match \<Rightarrow> action \<Rightarrow> match" where
  "push_history m a =
     (let h = history m @ [a]
      in m\<lparr>history := (if length h > 128 then drop (length h - 128) h else h)\<rparr>)"

section \<open>Timer helpers\<close>

record payload =
  p_running :: bool
  p_remaining :: real
  p_last_started :: "real option"

text \<open>
  \<open>timer_payload\<close> reads \<open>m["timer"]\<close> and assigns nothing: it is a function from the
  match (and the two clock readings) to the payload, with no match in its result.
\<close>

definition timer_payload :: "real \<Rightarrow> real \<Rightarrow> match \<Rightarrow> payload" where
  "timer_payload now wall m =
     (let t = timer m in
      case last_started_mono t of
        Some T \<Rightarrow>
          if running t then
            (let elapsed = now - T;
                 rem = max 0 (remaining t - elapsed)
             in \<lparr> p_running = True, p_remaining = rem, p_last_started = Some (wall - elapsed) \<rparr>)
          else \<lparr> p_running = False, p_remaining = remaining t, p_last_started = None \<rparr>
      | None \<Rightarrow> \<lparr> p_running = False, p_remaining = remaining t, p_last_started = None \<rparr>)"

definition timer_start :: "real \<Rightarrow> match \<Rightarrow> match" where
  "timer_start now m =
     (let t = timer m in
      if \<not> running t then m\<lparr>timer := t\<lparr>running := True, last_started_mono := Some now\<rparr>\<rparr>
      else m)"

definition timer_pause :: "real \<Rightarrow> match \<Rightarrow> match" where
  "timer_pause now m =
     (let t = timer m in
      case last_started_mono t of
        Some T \<Rightarrow>
          if running t then
            (let elapsed = now - T
             in m\<lparr>timer := t\<lparr>remaining := max 0 (remaining t - elapsed),
                             running := False, last_started_mono := None\<rparr>\<rparr>)
          else m
      | None \<Rightarrow> m)"

definition timer_reset_round :: "match \<Rightarrow> match" where
  "timer_reset_round m =
     m\<lparr>timer := (timer m)\<lparr>running := False, last_started_mono := None,
                          remaining := real_of_int (round_time m)\<rparr>\<rparr>"

definition timer_reset_break :: "match \<Rightarrow> match" where
  "timer_reset_break m =
     m\<lparr>timer := (timer m)\<lparr>running := False, last_started_mono := None,
                          remaining := real_of_int (break_time m)\<rparr>\<rparr>"

section \<open>Round and match logic\<close>

text \<open>
  \<open>finalize_round\<close> takes the winner as the string the caller passes; any string other
  than "red" and "blue" returns at once. Its two clock readings are the one inside
  \<open>timer_pause\<close> (\<open>tp\<close>) and the one inside \<open>timer_start\<close> (\<open>ts\<close>).
\<close>

definition finalize_round :: "real \<Rightarrow> real \<Rightarrow> match \<Rightarrow> string \<Rightarrow> match \<times> event list" where
  "finalize_round tp ts m winner_color =
     (case color_of winner_color of
        None \<Rightarrow> (m, [])
      | Some w \<Rightarrow>
          let m1 = m\<lparr>round_wins := (round_wins m)(w := round_wins m w + 1)\<rparr>;
              m2 = timer_pause tp m1;
              m3 = m2\<lparr>scores := (\<lambda>c. 0), gamjeom := (\<lambda>c. 0)\<rparr>
          in if round_wins m3 w \<ge> rounds_to_win m3 then
               (m3\<lparr>status := Over\<rparr>, [Ev_match_over w, Ev_state])
             else
               (timer_start ts (timer_reset_break (m3\<lparr>status := Break\<rparr>)),
                [Ev_round_over (Some w), Ev_state, Ev_timer]))"

definition check_ptg_and_finalize_if_needed :: "real \<Rightarrow> real \<Rightarrow> match \<Rightarrow> match \<times> event list" where
  "check_ptg_and_finalize_if_needed tp ts m =
     (let red = scores m Red; blue = scores m Blue in
      if \<bar>red - blue\<bar> \<ge> ptg_gap m then
        finalize_round tp ts m (if red > blue then ''red'' else ''blue'')
      else (m, []))"

definition end_round_by_time :: "real \<Rightarrow> real \<Rightarrow> match \<Rightarrow> match \<times> event list" where
  "end_round_by_time tp ts m =
     (let red = scores m Red; blue = scores m Blue in
      if red = blue then
        (timer_reset_break (m\<lparr>status := Break\<rparr>), [Ev_round_over None, Ev_state])
      else finalize_round tp ts m (if red > blue then ''red'' else ''blue''))"

definition next_round :: "match \<Rightarrow> match" where
  "next_round m =
     timer_reset_round
       (m\<lparr>round_no := round_no m + 1, scores := (\<lambda>c. 0), gamjeom := (\<lambda>c. 0),
          status := Running\<rparr>)"

section \<open>Vote buffer and server-side majority scoring\<close>

definition SCORING_WINDOW :: real where
  "SCORING_WINDOW = 13 / 10"

definition SERVER_SIDE_MAJORITY :: bool where
  "SERVER_SIDE_MAJORITY = True"

definition add_vote_to_buffer :: "real \<Rightarrow> match \<Rightarrow> sid \<Rightarrow> color \<Rightarrow> int \<Rightarrow> match" where
  "add_vote_to_buffer now m s c points =
     m\<lparr>vote_buffer := vote_buffer m @
          [\<lparr> v_sid = s, v_color = c, v_points = points, ts_mono = now \<rparr>]\<rparr>"

definition clean_vote_buffer :: "real \<Rightarrow> match \<Rightarrow> match" where
  "clean_vote_buffer now m =
     (let cutoff = now - SCORING_WINDOW
      in m\<lparr>vote_buffer := filter (\<lambda>v. ts_mono v \<ge> cutoff) (vote_buffer m)\<rparr>)"

text \<open>
  \<open>groups\<close> is the insertion-ordered dictionary (color, points) -> set of sids that
  \<open>process_vote_buffer\<close> builds; \<open>add_to_group\<close> is the body of its loop for a vote inside
  the window, \<open>build_groups\<close> the loop.
\<close>

type_synonym groups = "((color \<times> int) \<times> sid set) list"

definition add_to_group :: "groups \<Rightarrow> vote \<Rightarrow> groups" where
  "add_to_group groups v =
     (let key = (v_color v, v_points v);
          old = (case map_of groups key of None \<Rightarrow> {} | Some s \<Rightarrow> s)
      in AList.update key (insert (v_sid v) old) groups)"

fun build_groups :: "real \<Rightarrow> vote list \<Rightarrow> groups \<Rightarrow> groups" where
  "build_groups cutoff [] groups = groups"
| "build_groups cutoff (v # vs) groups =
     (if ts_mono v < cutoff then build_groups cutoff vs groups
      else build_groups cutoff vs (add_to_group groups v))"

text \<open>An entry of \<open>eligible\<close>: \<open>(len(sids), pts, color, sids)\<close>.\<close>

type_synonym elig = "nat \<times> int \<times> color \<times> sid set"

definition eligible_of :: "int \<Rightarrow> groups \<Rightarrow> elig list" where
  "eligible_of needed groups =
     map (\<lambda>((c, p), s). (card s, p, c, s))
       (filter (\<lambda>(k, s). int (card s) \<ge> needed) groups)"

text \<open>
  \<open>eligible.sort(key=lambda x: (x[0], x[1]), reverse=True)\<close>: Python compares the key
  tuples lexicographically, and the sort is stable also with \<open>reverse=True\<close> (entries with
  equal keys keep their order). \<open>sort_desc\<close> is the insertion sort with that result.
\<close>

definition key_lt :: "elig \<Rightarrow> elig \<Rightarrow> bool" where
  "key_lt a b = (fst a < fst b \<or> (fst a = fst b \<and> fst (snd a) < fst (snd b)))"

fun insort_desc :: "elig \<Rightarrow> elig list \<Rightarrow> elig list" where
  "insort_desc x [] = [x]"
| "insort_desc x (y # ys) = (if key_lt x y then y # insort_desc x ys else x # y # ys)"

definition sort_desc :: "elig list \<Rightarrow> elig list" where
  "sort_desc xs = foldr insort_desc xs []"

text \<open>
  \<open>best_group\<close> is the part of \<open>process_vote_buffer\<close> between the emptiness test of
  the cleaned buffer and the award: it builds \<open>groups\<close>, filters \<open>eligible\<close>, sorts it and
  takes \<open>eligible[0]\<close>. The source returns False on an empty \<open>eligible\<close> before it
  sorts; the sorted list is empty exactly then, and the result is \<open>None\<close>.
\<close>

definition best_group :: "real \<Rightarrow> match \<Rightarrow> elig option" where
  "best_group tg m =
     (let cutoff = tg - SCORING_WINDOW;
          groups = build_groups cutoff (vote_buffer m) [];
          needed = quorum_required m;
          eligible = eligible_of needed groups
      in case sort_desc eligible of
           [] \<Rightarrow> None
         | x # _ \<Rightarrow> Some x)"

text \<open>
  \<open>apply_award\<close> is the block "Apply award" and "Remove votes that were used (by sid)"
  of \<open>process_vote_buffer\<close>: the history push, the score increment and the filter of the
  buffer, which keeps the votes whose sid is not in the winning set.
\<close>

definition apply_award :: "match \<Rightarrow> color \<Rightarrow> int \<Rightarrow> sid set \<Rightarrow> match" where
  "apply_award m color pts sids_set =
     (let m2 = push_history m (Op_score color pts (Some sids_set));
          m3 = m2\<lparr>scores := (scores m2)(color := scores m2 color + pts)\<rparr>
      in m3\<lparr>vote_buffer := filter (\<lambda>v. v_sid v \<notin> sids_set) (vote_buffer m3)\<rparr>)"

text \<open>
  \<open>process_vote_buffer\<close> reads the clock in \<open>clean_vote_buffer\<close> (\<open>tc\<close>) and again for
  the grouping cutoff (\<open>tg\<close>); \<open>tp\<close> and \<open>ts\<close> are the readings of a round finalize.
\<close>

definition process_vote_buffer ::
  "real \<Rightarrow> real \<Rightarrow> real \<Rightarrow> real \<Rightarrow> match \<Rightarrow> bool \<times> match \<times> event list" where
  "process_vote_buffer tc tg tp ts m =
     (let m1 = clean_vote_buffer tc m in
      if vote_buffer m1 = [] then (False, m1, [])
      else
        case best_group tg m1 of
          None \<Rightarrow> (False, m1, [])
        | Some (count, pts, color, sids_set) \<Rightarrow>
            let m4 = apply_award m1 color pts sids_set;
                (m5, evs) = check_ptg_and_finalize_if_needed tp ts m4
            in (True, m5, evs @ [Ev_ref_score_applied color pts sids_set, Ev_state]))"

section \<open>Operator handlers\<close>

text \<open>
  Each handler is modelled on the match \<open>machines[code]\<close> it works on, after its check
  that the code is known; \<open>on_disconnect\<close>, whose body is a loop over the whole registry,
  is modelled on the registry. A colour arrives as a string. Where a handler converts a
  field with \<open>int(...)\<close> before anything else, the argument is the outcome of that
  conversion: \<open>Inr\<close> the integer, or \<open>Inl\<close> the error that \<open>int\<close> raises (ValueError for
  a string that is no number, TypeError for a value that is no number or string); on an
  error the handler ends with it and has touched nothing.
\<close>

definition operator_proceed_if_ready :: "match \<Rightarrow> match \<times> event list" where
  "operator_proceed_if_ready m =
     (let connected = (int (length (remotes m)) \<ge> num_refs_cfg m);
          all_tested = (list_all (\<lambda>(s, r). tested r) (remotes m) \<and> connected)
      in if connected \<and> all_tested \<and> status m \<in> {Connecting, Paused} then
           (timer_reset_round (m\<lparr>status := Running\<rparr>), [Ev_proceed_main, Ev_state, Ev_timer])
         else (m, []))"

definition timer_ctrl :: "real \<Rightarrow> string \<Rightarrow> match \<Rightarrow> match \<times> event list" where
  "timer_ctrl now action_name m =
     (let m' =
        (if action_name = ''start'' \<and> status m \<in> {Running, Break} then timer_start now m
         else if action_name = ''pause'' then timer_pause now m
         else if action_name = ''reset_round'' then timer_reset_round m
         else if action_name = ''reset_break'' then timer_reset_break m
         else m)
      in (m', [Ev_timer, Ev_state]))"

definition operator_adjust_score ::
  "real \<Rightarrow> real \<Rightarrow> string \<Rightarrow> error + int \<Rightarrow> match \<Rightarrow> error + match \<times> event list" where
  "operator_adjust_score tp ts color_name delta_arg m =
     (case delta_arg of
        Inl e \<Rightarrow> Inl e
      | Inr delta \<Rightarrow>
          Inr (case color_of color_name of
                 None \<Rightarrow> (m, [])
               | Some c \<Rightarrow>
                   if delta = 0 then (m, [])
                   else
                     let m1 = push_history m (Op_score c delta None);
                         m2 = m1\<lparr>scores := (scores m1)(c := max 0 (scores m1 c + delta))\<rparr>;
                         (m3, evs) = check_ptg_and_finalize_if_needed tp ts m2
                     in (m3, evs @ [Ev_state])))"

definition other_color :: "color \<Rightarrow> color" where
  "other_color c = (if c = Blue then Red else Blue)"

definition operator_gamjeom :: "real \<Rightarrow> real \<Rightarrow> string \<Rightarrow> match \<Rightarrow> match \<times> event list" where
  "operator_gamjeom tp ts color_name m =
     (case color_of color_name of
        None \<Rightarrow> (m, [])
      | Some c \<Rightarrow>
          let m1 = push_history m (Op_gamjeom c);
              m2 = m1\<lparr>gamjeom := (gamjeom m1)(c := gamjeom m1 c + 1)\<rparr>;
              other = other_color c;
              m3 = m2\<lparr>scores := (scores m2)(other := scores m2 other + 1)\<rparr>;
              (m4, evs) = check_ptg_and_finalize_if_needed tp ts m3
          in (m4, evs @ [Ev_state]))"

definition operator_undo :: "match \<Rightarrow> match \<times> event list" where
  "operator_undo m =
     (if history m = [] then (m, [Ev_toast ''Nothing to undo''])
      else
        let a = last (history m);
            m1 = m\<lparr>history := butlast (history m)\<rparr>;
            m2 = (case a of
                    Op_score c d by \<Rightarrow> m1\<lparr>scores := (scores m1)(c := max 0 (scores m1 c - d))\<rparr>
                  | Op_gamjeom c \<Rightarrow>
                      let other = other_color c;
                          m' = m1\<lparr>gamjeom := (gamjeom m1)(c := max 0 (gamjeom m1 c - 1))\<rparr>
                      in m'\<lparr>scores := (scores m')(other := max 0 (scores m' other - 1))\<rparr>)
        in (m2, [Ev_state]))"

definition operator_declare_match :: "string \<Rightarrow> match \<Rightarrow> match \<times> event list" where
  "operator_declare_match color_name m =
     (case color_of color_name of
        None \<Rightarrow> (m, [])
      | Some c \<Rightarrow>
          (m\<lparr>round_wins := (round_wins m)(c := rounds_to_win m), status := Over\<rparr>,
           [Ev_match_over c, Ev_state]))"

definition operator_request_replay :: "string \<Rightarrow> match \<Rightarrow> match \<times> event list" where
  "operator_request_replay color_name m =
     (case color_of color_name of
        None \<Rightarrow> (m, [])
      | Some c \<Rightarrow>
          if ivr_pending m \<noteq> None then (m, [])
          else if ivr_available m c \<le> 0 then (m, [])
          else (m\<lparr>ivr_pending := Some \<lparr> ivr_color = c, votes = {} \<rparr>\<rparr>,
                [Ev_ivr_overlay c (length (remotes m))]))"

definition operator_replay_result_ack :: "match \<Rightarrow> match \<times> event list" where
  "operator_replay_result_ack m = (m\<lparr>ivr_pending := None\<rparr>, [Ev_state])"

definition operator_next_round :: "match \<Rightarrow> match \<times> event list" where
  "operator_next_round m =
     (if status m = Over then (m, []) else (next_round m, [Ev_state, Ev_timer]))"

definition new_match :: "real \<Rightarrow> match \<Rightarrow> match \<times> event list" where
  "new_match wall old =
     (new_machine_state wall (num_refs_cfg old) (round_time old) (break_time old)
        (match_password old) (category old) (red_name old) (blue_name old),
      [Ev_force_setup ''New match''])"

section \<open>Referee handlers\<close>

text \<open>
  \<open>ref_join\<close>: \<open>judge\<close> is the value of \<open>((data or {}).get("name") or "Judge").strip()[:24]\<close>.
\<close>

definition ref_join :: "real \<Rightarrow> string \<Rightarrow> string \<Rightarrow> sid \<Rightarrow> match \<Rightarrow> match \<times> event list" where
  "ref_join wall passwd judge s m =
     (if passwd \<noteq> match_password m then (m, [Ev_ref_join_result False])
      else
        (m\<lparr>remotes := AList.update s
              \<lparr> name = or_default judge ''Judge'', connected_at = wall,
                last_activity_mono = None, tested = False \<rparr> (remotes m)\<rparr>,
         [Ev_remote_status, Ev_ref_join_result True]))"

definition ref_activity :: "real \<Rightarrow> string \<Rightarrow> sid \<Rightarrow> match \<Rightarrow> match \<times> event list" where
  "ref_activity now passwd s m =
     (if passwd \<noteq> match_password m then (m, [])
      else
        case map_of (remotes m) s of
          None \<Rightarrow> (m, [])
        | Some r \<Rightarrow>
            (m\<lparr>remotes := AList.update s
                  (r\<lparr>last_activity_mono := Some now, tested := True\<rparr>) (remotes m)\<rparr>,
             [Ev_remote_status]))"

text \<open>
  \<open>ref_press\<close>: the clock readings are, in the order of the calls, the activity stamp
  (\<open>ta\<close>), the vote's timestamp (\<open>tv\<close>) and the four of \<open>process_vote_buffer\<close>.
\<close>

definition ref_press ::
  "real \<Rightarrow> real \<Rightarrow> real \<Rightarrow> real \<Rightarrow> real \<Rightarrow> real \<Rightarrow> string \<Rightarrow> sid \<Rightarrow> string \<Rightarrow> error + int \<Rightarrow> match
     \<Rightarrow> error + match \<times> event list" where
  "ref_press ta tv tc tg tp ts passwd s color_name pts_arg m =
     (case pts_arg of
        Inl e \<Rightarrow> Inl e
      | Inr pts \<Rightarrow>
          Inr (if color_of color_name = None \<or> pts \<notin> {1, 2, 3} then (m, [])
               else if passwd \<noteq> match_password m then (m, [])
               else if status m \<noteq> Running then (m, [])
               else
                 case map_of (remotes m) s of
                   None \<Rightarrow> (m, [])
                 | Some r \<Rightarrow>
                     let c = the (color_of color_name);
                         m1 = m\<lparr>remotes := AList.update s
                                (r\<lparr>last_activity_mono := Some ta, tested := True\<rparr>) (remotes m)\<rparr>
                     in if SERVER_SIDE_MAJORITY then
                          let m2 = add_vote_to_buffer tv m1 s c pts;
                              (processed, m3, evs) = process_vote_buffer tc tg tp ts m2
                          in (m3, evs @ [Ev_remote_status, Ev_ref_press s c pts])
                        else
                          let m2 = push_history m1 (Op_score c pts None);
                              m3 = m2\<lparr>scores := (scores m2)(c := scores m2 c + pts)\<rparr>;
                              (m4, evs) = check_ptg_and_finalize_if_needed tp ts m3
                          in (m4, evs @ [Ev_state, Ev_remote_status])))"

definition ref_accept_replay :: "string \<Rightarrow> sid \<Rightarrow> match \<Rightarrow> match \<times> event list" where
  "ref_accept_replay passwd s m =
     (if passwd \<noteq> match_password m then (m, [])
      else
        case ivr_pending m of
          None \<Rightarrow> (m, [])
        | Some p \<Rightarrow>
            let p' = p\<lparr>votes := insert s (votes p)\<rparr>;
                m1 = m\<lparr>ivr_pending := Some p'\<rparr>
            in if int (card (votes p')) \<ge> quorum_required m1 then
                 (m1\<lparr>ivr_pending := None\<rparr>,
                  [Ev_ivr_votes (card (votes p')), Ev_ivr_result True (ivr_color p'), Ev_state])
               else (m1, [Ev_ivr_votes (card (votes p'))]))"

text \<open>
  \<open>ref_decline_replay\<close>: \<open>total\<close>, \<open>yes\<close> and \<open>needed\<close> are the source's three local
  variables, and the test is the source's \<open>yes + (total - yes) < needed\<close> on Python
  integers. The handler does not read the sender's id and stores nothing about a decline.
\<close>

definition ref_decline_replay :: "string \<Rightarrow> match \<Rightarrow> match \<times> event list" where
  "ref_decline_replay passwd m =
     (if passwd \<noteq> match_password m then (m, [])
      else
        case ivr_pending m of
          None \<Rightarrow> (m, [])
        | Some p \<Rightarrow>
            let total = int (length (remotes m));
                yes = int (card (votes p));
                needed = quorum_required m
            in if yes + (total - yes) < needed then
                 let c = ivr_color p
                 in (m\<lparr>ivr_available := (ivr_available m)(c := max 0 (ivr_available m c - 1)),
                       ivr_pending := None\<rparr>,
                     [Ev_ivr_result False c, Ev_state])
               else (m, [Ev_ivr_votes (card (votes p))]))"

text \<open>
  \<open>on_disconnect\<close> walks the registry in its order and handles the first match whose
  roster holds the sid, then leaves the loop. \<open>disconnect_match\<close> is the loop's body.
\<close>

definition disconnect_match :: "real \<Rightarrow> sid \<Rightarrow> match \<Rightarrow> match" where
  "disconnect_match now s m =
     (let m1 = m\<lparr>remotes := AList.delete s (remotes m)\<rparr>;
          m2 = m1\<lparr>vote_buffer := filter (\<lambda>v. v_sid v \<noteq> s) (vote_buffer m1)\<rparr>;
          m3 = timer_pause now m2
      in if status m3 \<noteq> Over then m3\<lparr>status := Paused\<rparr> else m3)"



section \<open>Auxiliary notions and example matches\<close>

text \<open>
  A timer is well formed when a running timer holds its start instant. The timer of a
  new match is, and \<open>timer_start\<close>, \<open>timer_pause\<close> and the two resets keep it so.
\<close>

definition timer_wf :: "match \<Rightarrow> bool" where
  "timer_wf m = (running (timer m) \<longrightarrow> last_started_mono (timer m) \<noteq> None)"

text \<open>
  Example matches, each reached from \<open>demo\<close> through the handlers: a referee joins with
  the default password and signals activity once; three referees and the operator's
  "proceed" give a running match; four referees and a replay request for red give a
  pending challenge.
\<close>

definition judge :: remote where
  "judge = \<lparr> name = ''Judge'', connected_at = 0, last_activity_mono = Some 1, tested = True \<rparr>"

definition joined :: "sid \<Rightarrow> match \<Rightarrow> match" where
  "joined s m = fst (ref_activity 1 ''1234'' s (fst (ref_join 0 ''1234'' ''Judge'' s m)))"

definition three_refs :: match where
  "three_refs = fst (operator_proceed_if_ready (joined ''C'' (joined ''B'' (joined ''A'' demo))))"

definition four_refs :: match where
  "four_refs = joined ''D'' (joined ''C'' (joined ''B'' (joined ''A'' demo)))"

definition red_challenge :: match where
  "red_challenge = fst (operator_request_replay ''red'' four_refs)"

definition declined :: "match \<Rightarrow> match" where
  "declined m = fst (ref_decline_replay ''1234'' m)"


text \<open>
  \<open>adjusted\<close> and \<open>pressed\<close> give the match after an operator score adjustment and after
  a referee press at one clock instant (the match itself when the handler raises).
\<close>

definition adjusted :: "real \<Rightarrow> string \<Rightarrow> int \<Rightarrow> match \<Rightarrow> match" where
  "adjusted now color_name delta m =
     (case operator_adjust_score now now color_name (Inr delta) m of
        Inl e \<Rightarrow> m
      | Inr (m', evs) \<Rightarrow> m')"

definition pressed :: "real \<Rightarrow> sid \<Rightarrow> string \<Rightarrow> int \<Rightarrow> match \<Rightarrow> match" where
  "pressed now s color_name pts m =
     (case ref_press now now now now now now ''1234'' s color_name (Inr pts) m of
        Inl e \<Rightarrow> m
      | Inr (m', evs) \<Rightarrow> m')"

text \<open>
  Two adjustments of +12 for red end the first round (break) and then the match (over);
  \<open>declared_red\<close> is over by the operator's declaration; \<open>one_vote\<close> is a running match
  with a running timer and one buffered vote.
\<close>

definition break_by_gap :: match where
  "break_by_gap = adjusted 5 ''red'' 12 three_refs"

definition over_by_gap :: match where
  "over_by_gap = adjusted 20 ''red'' 12 break_by_gap"

definition declared_red :: match where
  "declared_red = fst (operator_declare_match ''red'' three_refs)"


text \<open>
  \<open>scores_nonneg\<close>: no score and no penalty count of the match is negative. A new match
  satisfies it, and a round finalize, the operator's adjustment and undo keep it.
\<close>

definition scores_nonneg :: "match \<Rightarrow> bool" where
  "scores_nonneg m = (\<forall>c. 0 \<le> scores m c \<and> 0 \<le> gamjeom m c)"

text \<open>
  \<open>voters cutoff buf key\<close> is the set of distinct sids that have, in the buffer, a vote
  for the (color, points) pair \<open>key\<close> that is not older than the cutoff: the set that
  \<open>process_vote_buffer\<close> collects under that key.
\<close>

definition voters :: "real \<Rightarrow> vote list \<Rightarrow> color \<times> int \<Rightarrow> sid set" where
  "voters cutoff buf key =
     v_sid ` {v \<in> set buf. \<not> ts_mono v < cutoff \<and> (v_color v, v_points v) = key}"

text \<open>
  More example matches: \<open>plus3\<close> after an adjustment of +3 for red; \<open>two_votes\<close> after
  referee A has pressed red/2 and then blue/1 (no quorum: three referees, quorum 2);
  \<open>two_refs_left\<close> after referee C's connection has closed on \<open>two_votes\<close> (two referees,
  quorum 1, both of A's votes still buffered).
\<close>

definition plus3 :: match where
  "plus3 = adjusted 2 ''red'' 3 three_refs"

definition two_votes :: match where
  "two_votes = pressed (21 / 2) ''A'' ''blue'' 1 (pressed 10 ''A'' ''red'' 2 three_refs)"

definition two_refs_left :: match where
  "two_refs_left = disconnect_match (43 / 4) ''C'' two_votes"

section \<open>Basic facts\<close>

lemma quorum_required_div: "quorum_required m = max 1 ((int (length (remotes m)) + 1) div 2)"
proof -
  have "\<lceil>real (length (remotes m)) / 2\<rceil> = \<lceil>of_int (int (length (remotes m))) / (of_int 2 :: real)\<rceil>"
    by simp
  also have "\<dots> = - (- int (length (remotes m)) div 2)"
    by (rule ceiling_divide_eq_div)
  also have "\<dots> = (int (length (remotes m)) + 1) div 2"
    by linarith
  finally show ?thesis
    by (simp add: quorum_required_def)
qed

lemma quorum_le_total: "remotes m \<noteq> [] \<Longrightarrow> quorum_required m \<le> int (length (remotes m))"
proof -
  assume "remotes m \<noteq> []"
  then have "1 \<le> int (length (remotes m))"
    by (cases "remotes m") simp_all
  then show ?thesis
    unfolding quorum_required_div by linarith
qed

lemma joined_eq:
  "match_password m = ''1234'' \<Longrightarrow> joined s m = m\<lparr>remotes := AList.update s judge (remotes m)\<rparr>"
  by (simp add: joined_def ref_join_def ref_activity_def or_default_def judge_def update_conv')

lemma demo_password: "match_password demo = ''1234''"
  by (simp add: demo_def new_machine_state_def or_default_def)

lemma demo_remotes: "remotes demo = []"
  by (simp add: demo_def new_machine_state_def)

lemma four_refs_eq:
  "four_refs = demo\<lparr>remotes := [(''A'', judge), (''B'', judge), (''C'', judge), (''D'', judge)]\<rparr>"
  by (simp add: four_refs_def joined_eq demo_password demo_remotes)

lemma demo_fields:
  "status demo = Connecting" "num_refs_cfg demo = 3" "round_time demo = 120" "break_time demo = 60"
  "rounds_to_win demo = 2" "ptg_gap demo = 12" "scores demo = (\<lambda>c. 0)" "round_wins demo = (\<lambda>c. 0)"
  "gamjeom demo = (\<lambda>c. 0)" "ivr_available demo = (\<lambda>c. 1)" "ivr_pending demo = None"
  "vote_buffer demo = []" "history demo = []"
  "timer demo = \<lparr> running = False, remaining = 120, last_started_mono = None \<rparr>"
  by (simp_all add: demo_def new_machine_state_def)

lemma three_refs_eq:
  "three_refs = demo\<lparr>status := Running,
       remotes := [(''A'', judge), (''B'', judge), (''C'', judge)]\<rparr>"
  by (simp add: three_refs_def joined_eq demo_password demo_remotes operator_proceed_if_ready_def
      timer_reset_round_def demo_fields judge_def)

lemma three_refs_fields:
  "status three_refs = Running" "rounds_to_win three_refs = 2" "ptg_gap three_refs = 12"
  "scores three_refs = (\<lambda>c. 0)" "round_wins three_refs = (\<lambda>c. 0)" "history three_refs = []"
  "timer three_refs = \<lparr> running = False, remaining = 120, last_started_mono = None \<rparr>"
  "break_time three_refs = 60" "round_time three_refs = 120" "match_password three_refs = ''1234''"
  "remotes three_refs = [(''A'', judge), (''B'', judge), (''C'', judge)]"
  "vote_buffer three_refs = []" "gamjeom three_refs = (\<lambda>c. 0)"
  by (simp_all add: three_refs_eq demo_fields demo_password)

lemma timer_wf_kept:
  "timer_wf (new_machine_state wall n rt bt pw cat rn bn)"
  "timer_wf m \<Longrightarrow> timer_wf (timer_start now m)"
  "timer_wf m \<Longrightarrow> timer_wf (timer_pause now m)"
  "timer_wf (timer_reset_round m)"
  "timer_wf (timer_reset_break m)"
  by (auto simp: timer_wf_def new_machine_state_def timer_start_def timer_pause_def
      timer_reset_round_def timer_reset_break_def Let_def split: option.splits)

section \<open>The replay challenge: decline path\<close>

text \<open>
  The test of \<open>ref_decline_replay\<close> adds the accepts to "total minus accepts", which is
  the number of referees again; with at least one referee that number is never below the
  quorum, so a decline never resolves the challenge.
\<close>

lemma decline_test_false:
  "remotes m \<noteq> [] \<Longrightarrow> \<not> (int (length (remotes m)) < quorum_required m)"
  using quorum_le_total [of m] by linarith

lemma decline_keeps_state: "remotes m \<noteq> [] \<Longrightarrow> fst (ref_decline_replay passwd m) = m"
  by (simp add: ref_decline_replay_def Let_def decline_test_false split: option.splits)

lemma red_challenge_eq:
  "red_challenge = four_refs\<lparr>ivr_pending := Some \<lparr> ivr_color = Red, votes = {} \<rparr>\<rparr>"
  by (simp add: red_challenge_def operator_request_replay_def color_of_def four_refs_eq
      demo_def new_machine_state_def)

lemma declined_red_challenge: "declined red_challenge = red_challenge"
  by (simp add: declined_def decline_keeps_state red_challenge_eq four_refs_eq)

text \<open>
  Claim C1. The claim: with four referees (quorum 2) and no accept, the third decline
  resolves the pending red challenge as declined and takes red's budget from 1 to 0.
  The code, evaluated on that input: after three declines the challenge is still pending
  with no vote recorded and red's budget is still 1.
\<close>

theorem third_decline_leaves_challenge_pending:
  "length (remotes red_challenge) = 4
   \<and> quorum_required red_challenge = 2
   \<and> ivr_pending red_challenge = Some \<lparr> ivr_color = Red, votes = {} \<rparr>
   \<and> ivr_available red_challenge Red = 1
   \<and> ivr_pending (declined (declined (declined red_challenge))) = Some \<lparr> ivr_color = Red, votes = {} \<rparr>
   \<and> ivr_available (declined (declined (declined red_challenge))) Red = 1"
  by (simp add: declined_red_challenge quorum_required_div)
    (simp add: red_challenge_eq four_refs_eq demo_def new_machine_state_def)

section \<open>The timer\<close>

text \<open>
  Claim C7. \<open>timer_payload\<close> returns a payload and no match (it assigns nothing). For a
  running timer with remaining \<open>R0\<close> started at \<open>T\<close>, the projected remaining is
  \<open>max 0 (R0 - (now - T))\<close> at every \<open>now\<close> (in particular at every \<open>now \<ge> T\<close>), and it
  does not increase when \<open>now\<close> grows.
\<close>

theorem timer_payload_projection:
  assumes "running (timer m)" and "last_started_mono (timer m) = Some T"
  shows "p_remaining (timer_payload now wall m) = max 0 (remaining (timer m) - (now - T))
       \<and> p_running (timer_payload now wall m)
       \<and> (\<forall>later wall'. now \<le> later \<longrightarrow>
             p_remaining (timer_payload later wall' m) \<le> p_remaining (timer_payload now wall m))"
  using assms by (auto simp: timer_payload_def Let_def)

theorem timer_payload_projection_witness:
  "running (timer (timer_start 10 demo))
   \<and> last_started_mono (timer (timer_start 10 demo)) = Some 10
   \<and> p_remaining (timer_payload 55 1000 (timer_start 10 demo)) = 75
   \<and> p_remaining (timer_payload 60 1000 (timer_start 10 demo))
       \<le> p_remaining (timer_payload 55 1000 (timer_start 10 demo))"
proof -
  have r: "running (timer (timer_start 10 demo))"
    by (simp add: timer_start_def demo_def new_machine_state_def)
  have l: "last_started_mono (timer (timer_start 10 demo)) = Some 10"
    by (simp add: timer_start_def demo_def new_machine_state_def)
  have rem: "remaining (timer (timer_start 10 demo)) = 120"
    by (simp add: timer_start_def demo_def new_machine_state_def)
  from timer_payload_projection [OF r l, of 55 1000] rem r l show ?thesis
    by auto
qed

text \<open>
  Claim C8. For every timer state, \<open>timer_pause\<close> followed by \<open>timer_start\<close> leaves the
  stored remaining time equal to the projected remaining time at the instant of the pause,
  whenever the start happens. For a well-formed timer the countdown then runs from that
  value: the projection at \<open>now\<close> is \<open>max 0 (that value - (now - ts))\<close>, where \<open>ts\<close> is the
  instant of the start; the instant of the pause does not occur in it.
\<close>

theorem pause_then_start_preserves_remaining:
  "remaining (timer (timer_start ts (timer_pause tp m))) = p_remaining (timer_payload tp wall m)
   \<and> (timer_wf m \<longrightarrow>
        (\<forall>now wall'. p_remaining (timer_payload now wall' (timer_start ts (timer_pause tp m)))
                     = max 0 (p_remaining (timer_payload tp wall m) - (now - ts))))"
  by (auto simp: timer_start_def timer_pause_def timer_payload_def timer_wf_def Let_def split: option.splits)

theorem pause_then_start_preserves_remaining_witness:
  "timer_wf (timer_start 0 demo)
   \<and> remaining (timer (timer_start 45 (timer_pause 45 (timer_start 0 demo)))) = 75
   \<and> remaining (timer (timer_start 500 (timer_pause 45 (timer_start 0 demo)))) = 75
   \<and> p_remaining (timer_payload 530 0 (timer_start 500 (timer_pause 45 (timer_start 0 demo)))) = 45"
proof -
  have wf: "timer_wf (timer_start 0 demo)"
    by (simp add: timer_wf_def timer_start_def demo_fields)
  have p: "p_remaining (timer_payload 45 0 (timer_start 0 demo)) = 75"
    by (simp add: timer_payload_def timer_start_def demo_fields)
  from pause_then_start_preserves_remaining [of 45 45 "timer_start 0 demo" 0]
    pause_then_start_preserves_remaining [of 500 45 "timer_start 0 demo" 0] wf p
  show ?thesis by auto
qed

section \<open>Referee press\<close>

text \<open>
  Claim C10. A referee press whose colour is not "red" or "blue", or whose points are not
  1, 2 or 3, returns at once: the handler's result is the match it was given, with no
  message sent, so no vote is appended and no activity stamp is written, whatever the
  status, the password and the sender are. (Points that \<open>int(...)\<close> cannot convert end the
  handler with the error before it reads the match: the result holds no match at all.)
\<close>

theorem ref_press_invalid_discarded:
  assumes "color_name \<notin> {''red'', ''blue''} \<or> pts \<notin> {1, 2, 3}"
  shows "ref_press ta tv tc tg tp ts passwd s color_name (Inr pts) m = Inr (m, [])"
  using assms by (auto simp: ref_press_def color_of_def)

theorem ref_press_invalid_discarded_witness:
  "status three_refs = Running
   \<and> map_of (remotes three_refs) ''A'' = Some judge
   \<and> match_password three_refs = ''1234''
   \<and> ref_press 2 2 2 2 2 2 ''1234'' ''A'' ''red'' (Inr 4) three_refs = Inr (three_refs, [])
   \<and> ref_press 2 2 2 2 2 2 ''1234'' ''A'' ''green'' (Inr 2) three_refs = Inr (three_refs, [])"
proof -
  have "status three_refs = Running" "map_of (remotes three_refs) ''A'' = Some judge"
    "match_password three_refs = ''1234''"
    by (simp_all add: three_refs_eq demo_password)
  with ref_press_invalid_discarded [of "''red''" 4 2 2 2 2 2 2 "''1234''" "''A''" three_refs]
    ref_press_invalid_discarded [of "''green''" 2 2 2 2 2 2 2 "''1234''" "''A''" three_refs]
  show ?thesis by simp
qed

section \<open>Round wins and the status over\<close>

lemma break_by_gap_eq:
  "break_by_gap = three_refs\<lparr>history := [Op_score Red 12 None],
       round_wins := (\<lambda>c. 0)(Red := 1), status := Break,
       timer := \<lparr> running = True, remaining = 60, last_started_mono = Some 5 \<rparr>\<rparr>"
  by (simp add: break_by_gap_def adjusted_def operator_adjust_score_def color_of_def push_history_def
      check_ptg_and_finalize_if_needed_def finalize_round_def timer_pause_def timer_start_def
      timer_reset_break_def three_refs_fields Let_def)


lemma break_by_gap_fields:
  "status break_by_gap = Break" "rounds_to_win break_by_gap = 2" "ptg_gap break_by_gap = 12"
  "scores break_by_gap = (\<lambda>c. 0)" "round_wins break_by_gap = (\<lambda>c. 0)(Red := 1)"
  "history break_by_gap = [Op_score Red 12 None]"
  "timer break_by_gap = \<lparr> running = True, remaining = 60, last_started_mono = Some 5 \<rparr>"
  by (simp_all add: break_by_gap_eq three_refs_fields)

lemma over_by_gap_eq:
  "over_by_gap = break_by_gap\<lparr>history := [Op_score Red 12 None, Op_score Red 12 None],
       round_wins := (\<lambda>c. 0)(Red := 2), status := Over,
       scores := (\<lambda>c. 0), gamjeom := (\<lambda>c. 0),
       timer := \<lparr> running = False, remaining = 45, last_started_mono = None \<rparr>\<rparr>"
  by (simp add: over_by_gap_def adjusted_def operator_adjust_score_def color_of_def push_history_def
      check_ptg_and_finalize_if_needed_def finalize_round_def timer_pause_def
      break_by_gap_fields Let_def)

lemma over_by_gap_fields:
  "status over_by_gap = Over" "rounds_to_win over_by_gap = 2" "ptg_gap over_by_gap = 12"
  "scores over_by_gap = (\<lambda>c. 0)" "round_wins over_by_gap = (\<lambda>c. 0)(Red := 2)"
  "history over_by_gap = [Op_score Red 12 None, Op_score Red 12 None]"
  "timer over_by_gap = \<lparr> running = False, remaining = 45, last_started_mono = None \<rparr>"
  "break_time over_by_gap = 60"
  by (simp_all add: over_by_gap_eq break_by_gap_eq three_refs_fields)

lemma third_gap_red:
  "round_wins (adjusted 30 ''red'' 12 over_by_gap) Red = 3"
  "rounds_to_win (adjusted 30 ''red'' 12 over_by_gap) = 2"
  by (simp_all add: adjusted_def operator_adjust_score_def color_of_def push_history_def
      check_ptg_and_finalize_if_needed_def finalize_round_def timer_pause_def
      over_by_gap_fields Let_def)

lemma gap_blue_after_over:
  "status (adjusted 30 ''blue'' 12 over_by_gap) = Break"
  "round_wins (adjusted 30 ''blue'' 12 over_by_gap) Red = 2"
  "rounds_to_win (adjusted 30 ''blue'' 12 over_by_gap) = 2"
  by (simp_all add: adjusted_def operator_adjust_score_def color_of_def push_history_def
      check_ptg_and_finalize_if_needed_def finalize_round_def timer_pause_def timer_start_def
      timer_reset_break_def over_by_gap_fields Let_def)

text \<open>
  Claim C2. The claim: \<open>round_wins[c]\<close> never exceeds \<open>rounds_to_win\<close>, and the status is
  over exactly when \<open>round_wins[c]\<close> reaches \<open>rounds_to_win\<close>. The code, evaluated:
  \<open>operator_adjust_score\<close> does not look at the status, so on the match that is over with
  two round wins for red, one more adjustment of +12 for red runs \<open>finalize_round\<close> again
  and gives red three round wins of two; the same adjustment for blue gives blue its first
  round win and sets the status to break, while red still holds \<open>rounds_to_win\<close> wins.
\<close>

theorem round_wins_exceed_rounds_to_win:
  "status over_by_gap = Over
   \<and> round_wins over_by_gap Red = 2
   \<and> rounds_to_win over_by_gap = 2
   \<and> round_wins (adjusted 30 ''red'' 12 over_by_gap) Red = 3
   \<and> rounds_to_win (adjusted 30 ''red'' 12 over_by_gap) = 2
   \<and> status (adjusted 30 ''blue'' 12 over_by_gap) = Break
   \<and> round_wins (adjusted 30 ''blue'' 12 over_by_gap) Red = 2"
  by (simp add: over_by_gap_fields third_gap_red gap_blue_after_over)

lemma declared_red_fields:
  "status declared_red = Over"
  "timer declared_red = \<lparr> running = False, remaining = 120, last_started_mono = None \<rparr>"
  "break_time declared_red = 60"
  by (simp_all add: declared_red_def operator_declare_match_def color_of_def three_refs_fields)

text \<open>
  Claim C5, as stated, fails: in a match that is over, the timer action "reset_break"
  is carried out and changes the timer's remaining time.
\<close>

theorem over_timer_reset_counterexample:
  "status declared_red = Over
   \<and> remaining (timer declared_red) = 120
   \<and> remaining (timer (fst (timer_ctrl 9 ''reset_break'' declared_red))) = 60"
  by (simp add: declared_red_fields timer_ctrl_def timer_reset_break_def)

text \<open>
  Claim C5, amended. \<open>finalize_round\<close> sets the status to over exactly when the winner's
  round wins reach \<open>rounds_to_win\<close> (else to break), and the operator's declaration sets
  the winner's round wins to \<open>rounds_to_win\<close> and the status to over. In a match that is
  over, a referee press, the timer action "start", the operator's "proceed" and "next
  round" leave the whole match as it is, and a referee's disconnect leaves the status over;
  the timer actions "pause", "reset_round" and "reset_break" are carried out as in any
  other status.
\<close>

theorem over_refuses_votes_and_timer_start:
  assumes "status m = Over"
  shows "ref_press ta tv tc tg tp ts passwd s color_name (Inr pts) m = Inr (m, [])
       \<and> fst (timer_ctrl now ''start'' m) = m
       \<and> operator_proceed_if_ready m = (m, [])
       \<and> operator_next_round m = (m, [])
       \<and> status (disconnect_match now s m) = Over
       \<and> fst (timer_ctrl now ''pause'' m) = timer_pause now m
       \<and> fst (timer_ctrl now ''reset_round'' m) = timer_reset_round m
       \<and> fst (timer_ctrl now ''reset_break'' m) = timer_reset_break m
       \<and> (\<forall>m0 w c. color_of w = Some c \<longrightarrow>
            status (fst (finalize_round tp ts m0 w))
              = (if round_wins m0 c + 1 \<ge> rounds_to_win m0 then Over else Break))
       \<and> (\<forall>m0 w c. color_of w = Some c \<longrightarrow>
            status (fst (operator_declare_match w m0)) = Over
            \<and> round_wins (fst (operator_declare_match w m0)) c = rounds_to_win m0)"
proof -
  have a: "ref_press ta tv tc tg tp ts passwd s color_name (Inr pts) m = Inr (m, [])"
    using assms by (simp add: ref_press_def)
  have b: "fst (timer_ctrl now ''start'' m) = m"
    using assms by (simp add: timer_ctrl_def)
  have c: "operator_proceed_if_ready m = (m, [])" "operator_next_round m = (m, [])"
    using assms by (simp_all add: operator_proceed_if_ready_def operator_next_round_def)
  have d: "status (disconnect_match now s m) = Over"
    using assms by (simp add: disconnect_match_def timer_pause_def Let_def split: option.splits)
  have e: "fst (timer_ctrl now ''pause'' m) = timer_pause now m"
    "fst (timer_ctrl now ''reset_round'' m) = timer_reset_round m"
    "fst (timer_ctrl now ''reset_break'' m) = timer_reset_break m"
    by (simp_all add: timer_ctrl_def)
  have f: "status (fst (finalize_round tp ts m0 w))
              = (if round_wins m0 c + 1 \<ge> rounds_to_win m0 then Over else Break)"
    if "color_of w = Some c" for m0 w c
    using that
    by (simp add: finalize_round_def timer_pause_def timer_start_def timer_reset_break_def Let_def
        split: option.splits)
  have g: "status (fst (operator_declare_match w m0)) = Over
            \<and> round_wins (fst (operator_declare_match w m0)) c = rounds_to_win m0"
    if "color_of w = Some c" for m0 w c
    using that by (simp add: operator_declare_match_def)
  from a b c d e f g show ?thesis by blast
qed

theorem over_refuses_votes_and_timer_start_witness:
  "status over_by_gap = Over
   \<and> ref_press 40 40 40 40 20 20 ''1234'' ''A'' ''red'' (Inr 2) over_by_gap = Inr (over_by_gap, [])
   \<and> fst (timer_ctrl 40 ''start'' over_by_gap) = over_by_gap
   \<and> operator_next_round over_by_gap = (over_by_gap, [])
   \<and> status (disconnect_match 40 ''A'' over_by_gap) = Over
   \<and> status (fst (finalize_round 20 20 break_by_gap ''red'')) = Over
   \<and> status (fst (finalize_round 5 5 three_refs ''red'')) = Break"
proof -
  have ov: "status over_by_gap = Over"
    by (simp add: over_by_gap_fields)
  have col: "color_of ''red'' = Some Red"
    by (simp add: color_of_def)
  from over_refuses_votes_and_timer_start [OF ov, of 40 40 40 40 20 20 "''1234''" "''A''" "''red''" 2 40]
    over_refuses_votes_and_timer_start [OF ov, of 40 40 40 40 5 5 "''1234''" "''A''" "''red''" 2 40]
    ov col
  show ?thesis
    by (simp add: break_by_gap_fields three_refs_fields)
qed

section \<open>Referee disconnect\<close>












section \<open>History and undo: basic facts\<close>

lemma history_push_history:
  "history (push_history m a) \<noteq> [] \<and> last (history (push_history m a)) = a"
  by (simp add: push_history_def Let_def)

lemma push_history_fields:
  "scores (push_history m a) = scores m" "gamjeom (push_history m a) = gamjeom m"
  "round_wins (push_history m a) = round_wins m" "ptg_gap (push_history m a) = ptg_gap m"
  "vote_buffer (push_history m a) = vote_buffer m" "remotes (push_history m a) = remotes m"
  by (simp_all add: push_history_def Let_def)

lemma finalize_round_wins:
  "color_of w = Some c \<Longrightarrow> round_wins (fst (finalize_round tp ts m w)) c = round_wins m c + 1"
  by (simp add: finalize_round_def timer_pause_def timer_start_def timer_reset_break_def Let_def
      split: option.splits)

lemma check_ptg_unchanged:
  assumes "round_wins (fst (check_ptg_and_finalize_if_needed tp ts m)) = round_wins m"
  shows "check_ptg_and_finalize_if_needed tp ts m = (m, [])"
proof (rule ccontr)
  assume neq: "check_ptg_and_finalize_if_needed tp ts m \<noteq> (m, [])"
  define w where "w = (if scores m Red > scores m Blue then ''red'' else ''blue'')"
  have "color_of w = Some Red \<or> color_of w = Some Blue"
    by (simp add: w_def color_of_def)
  then obtain c where c: "color_of w = Some c"
    by blast
  from neq have "check_ptg_and_finalize_if_needed tp ts m = finalize_round tp ts m w"
    by (auto simp: check_ptg_and_finalize_if_needed_def Let_def w_def split: if_splits)
  with assms have "round_wins (fst (finalize_round tp ts m w)) c = round_wins m c"
    by simp
  with finalize_round_wins [OF c, of tp ts m] show False
    by simp
qed

lemma scores_nonneg_new: "scores_nonneg (new_machine_state wall n rt bt pw cat rn bn)"
  by (simp add: scores_nonneg_def new_machine_state_def)

lemma scores_nonneg_finalize:
  "scores_nonneg m \<Longrightarrow> scores_nonneg (fst (finalize_round tp ts m w))"
  by (simp add: scores_nonneg_def finalize_round_def timer_pause_def timer_start_def
      timer_reset_break_def Let_def split: option.splits)

lemma scores_nonneg_check_ptg:
  "scores_nonneg m \<Longrightarrow> scores_nonneg (fst (check_ptg_and_finalize_if_needed tp ts m))"
  by (simp add: check_ptg_and_finalize_if_needed_def Let_def scores_nonneg_finalize)

lemma scores_nonneg_adjust:
  assumes "scores_nonneg m" and "operator_adjust_score tp ts cn (Inr delta) m = Inr (m', evs)"
  shows "scores_nonneg m'"
proof (cases "color_of cn")
  case None
  with assms show ?thesis by (simp add: operator_adjust_score_def)
next
  case (Some c)
  show ?thesis
  proof (cases "delta = 0")
    case True
    with assms Some show ?thesis by (simp add: operator_adjust_score_def)
  next
    case False
    let ?m2 = "(push_history m (Op_score c delta None))
        \<lparr>scores := (scores m)(c := max 0 (scores m c + delta))\<rparr>"
    have "scores_nonneg ?m2"
      using assms(1) by (simp add: scores_nonneg_def push_history_fields)
    then have "scores_nonneg (fst (check_ptg_and_finalize_if_needed tp ts ?m2))"
      by (rule scores_nonneg_check_ptg)
    moreover have "m' = fst (check_ptg_and_finalize_if_needed tp ts ?m2)"
      using assms(2) Some False
      by (simp add: operator_adjust_score_def push_history_fields Let_def split: prod.splits)
    ultimately show ?thesis by simp
  qed
qed

lemma scores_nonneg_undo: "scores_nonneg m \<Longrightarrow> scores_nonneg (fst (operator_undo m))"
  by (simp add: scores_nonneg_def operator_undo_def Let_def split: action.splits)

lemma undo_score_entry:
  assumes "history m \<noteq> []" and "last (history m) = Op_score c d by"
  shows "scores (fst (operator_undo m)) = (scores m)(c := max 0 (scores m c - d))"
    and "gamjeom (fst (operator_undo m)) = gamjeom m"
  using assms by (simp_all add: operator_undo_def Let_def)

lemma undo_gamjeom_entry:
  assumes "history m \<noteq> []" and "last (history m) = Op_gamjeom c"
  shows "scores (fst (operator_undo m))
           = (scores m)(other_color c := max 0 (scores m (other_color c) - 1))"
    and "gamjeom (fst (operator_undo m)) = (gamjeom m)(c := max 0 (gamjeom m c - 1))"
  using assms by (simp_all add: operator_undo_def Let_def)

lemma undo_adjust:
  assumes col: "color_of cn = Some c" and nz: "delta \<noteq> 0"
    and floor: "0 \<le> scores m c + delta" and nn: "scores_nonneg m"
    and run: "operator_adjust_score tp ts cn (Inr delta) m = Inr (m', evs)"
    and nofin: "round_wins m' = round_wins m"
  shows "scores (fst (operator_undo m')) = scores m"
proof -
  define m2 where "m2 = (push_history m (Op_score c delta None))
      \<lparr>scores := (scores m)(c := max 0 (scores m c + delta))\<rparr>"
  have res: "m' = fst (check_ptg_and_finalize_if_needed tp ts m2)"
    using run col nz
    by (simp add: operator_adjust_score_def m2_def push_history_fields Let_def split: prod.splits)
  have rw: "round_wins m2 = round_wins m"
    by (simp add: m2_def push_history_fields)
  from nofin res rw have "check_ptg_and_finalize_if_needed tp ts m2 = (m2, [])"
    by (intro check_ptg_unchanged) simp
  with res have m': "m' = m2" by simp
  have h: "history m2 \<noteq> []" "last (history m2) = Op_score c delta None"
    using history_push_history [of m "Op_score c delta None"] by (simp_all add: m2_def)
  have "0 \<le> scores m c" using nn by (simp add: scores_nonneg_def)
  with floor show ?thesis
    unfolding m' undo_score_entry(1) [OF h] by (auto simp: m2_def fun_eq_iff)
qed

lemma undo_gamjeom:
  assumes col: "color_of cn = Some c" and nn: "scores_nonneg m"
    and run: "operator_gamjeom tp ts cn m = (m', evs)"
    and nofin: "round_wins m' = round_wins m"
  shows "scores (fst (operator_undo m')) = scores m \<and> gamjeom (fst (operator_undo m')) = gamjeom m"
proof -
  define m3 where "m3 = (push_history m (Op_gamjeom c))
      \<lparr>gamjeom := (gamjeom m)(c := gamjeom m c + 1),
        scores := (scores m)(other_color c := scores m (other_color c) + 1)\<rparr>"
  have res: "m' = fst (check_ptg_and_finalize_if_needed tp ts m3)"
    using run col
    by (simp add: operator_gamjeom_def m3_def push_history_fields Let_def split: prod.splits)
  have rw: "round_wins m3 = round_wins m"
    by (simp add: m3_def push_history_fields)
  from nofin res rw have "check_ptg_and_finalize_if_needed tp ts m3 = (m3, [])"
    by (intro check_ptg_unchanged) simp
  with res have m': "m' = m3" by simp
  have h: "history m3 \<noteq> []" "last (history m3) = Op_gamjeom c"
    using history_push_history [of m "Op_gamjeom c"] by (simp_all add: m3_def)
  have "0 \<le> scores m (other_color c)" "0 \<le> gamjeom m c"
    using nn by (simp_all add: scores_nonneg_def)
  then show ?thesis
    unfolding m' undo_gamjeom_entry [OF h] by (auto simp: m3_def fun_eq_iff)
qed

section \<open>The groups of the vote buffer\<close>

lemma voters_Nil: "voters cutoff [] key = {}"
  by (simp add: voters_def)

lemma voters_Cons:
  "voters cutoff (v # vs) key =
     (if \<not> ts_mono v < cutoff \<and> (v_color v, v_points v) = key
      then insert (v_sid v) (voters cutoff vs key) else voters cutoff vs key)"
  by (auto simp: voters_def)

lemma finite_voters: "finite (voters cutoff buf key)"
  by (simp add: voters_def)

lemma map_of_add_to_group:
  "map_of (add_to_group gs v) k =
     (if k = (v_color v, v_points v)
      then Some (insert (v_sid v) (case map_of gs k of None \<Rightarrow> {} | Some s \<Rightarrow> s))
      else map_of gs k)"
  by (simp add: add_to_group_def Let_def update_conv')

lemma map_of_build_groups:
  "map_of (build_groups cutoff buf gs) k =
     (if voters cutoff buf k = {} then map_of gs k
      else Some (voters cutoff buf k \<union> (case map_of gs k of None \<Rightarrow> {} | Some s \<Rightarrow> s)))"
proof (induction buf arbitrary: gs)
  case Nil
  show ?case by (simp add: voters_Nil)
next
  case (Cons v vs)
  show ?case
  proof (cases "ts_mono v < cutoff")
    case True
    then show ?thesis by (simp add: Cons.IH voters_Cons)
  next
    case False
    then show ?thesis
      by (auto simp: Cons.IH voters_Cons map_of_add_to_group split: option.splits)
  qed
qed

lemma distinct_add_to_group:
  "distinct (map fst gs) \<Longrightarrow> distinct (map fst (add_to_group gs v))"
  by (simp add: add_to_group_def Let_def distinct_update)

lemma distinct_build_groups:
  "distinct (map fst gs) \<Longrightarrow> distinct (map fst (build_groups cutoff buf gs))"
  by (induction buf arbitrary: gs) (simp_all add: distinct_add_to_group)

lemma in_build_groups:
  "((k, s) \<in> set (build_groups cutoff buf [])) =
     (voters cutoff buf k \<noteq> {} \<and> s = voters cutoff buf k)"
proof -
  have d: "distinct (map fst (build_groups cutoff buf []))"
    by (rule distinct_build_groups) simp
  have "((k, s) \<in> set (build_groups cutoff buf [])) =
          (map_of (build_groups cutoff buf []) k = Some s)"
    using d by simp
  then show ?thesis
    by (auto simp: map_of_build_groups)
qed

lemma in_eligible_of:
  "(x \<in> set (eligible_of needed gs)) =
     (\<exists>c p s. x = (card s, p, c, s) \<and> ((c, p), s) \<in> set gs \<and> needed \<le> int (card s))"
  by (auto simp: eligible_of_def image_iff split: prod.splits)

lemma set_insort_desc: "set (insort_desc x ys) = insert x (set ys)"
  by (induction ys) auto

lemma set_sort_desc: "set (sort_desc xs) = set xs"
  by (induction xs) (simp_all add: sort_desc_def set_insort_desc)

lemma sort_desc_Cons: "sort_desc (x # xs) = insort_desc x (sort_desc xs)"
  by (simp add: sort_desc_def)

lemma hd_insort_desc:
  "insort_desc x ys = z # zs \<Longrightarrow>
     (ys = [] \<and> z = x) \<or> (ys \<noteq> [] \<and> key_lt x (hd ys) \<and> z = hd ys)
       \<or> (ys \<noteq> [] \<and> \<not> key_lt x (hd ys) \<and> z = x)"
  by (cases ys) (auto split: if_splits)

lemma hd_sort_desc_max:
  "sort_desc xs = z # zs \<Longrightarrow> z \<in> set xs \<and> (\<forall>y \<in> set xs. \<not> key_lt z y)"
proof (induction xs arbitrary: z zs)
  case Nil
  then show ?case by (simp add: sort_desc_def)
next
  case (Cons x xs)
  from Cons.prems have ins: "insort_desc x (sort_desc xs) = z # zs"
    by (simp add: sort_desc_Cons)
  show ?case
  proof (cases "sort_desc xs")
    case Nil
    then have "set xs = {}" using set_sort_desc [of xs] by simp
    with ins Nil show ?thesis by (simp add: key_lt_def)
  next
    case (Cons z' zs')
    from Cons.IH [OF Cons] have z': "z' \<in> set xs" and mx: "\<forall>y \<in> set xs. \<not> key_lt z' y"
      by simp_all
    from hd_insort_desc [OF ins] Cons
    consider (lt) "key_lt x z'" "z = z'" | (ge) "\<not> key_lt x z'" "z = x"
      by auto
    then show ?thesis
    proof cases
      case lt
      with z' mx show ?thesis by (auto simp: key_lt_def)
    next
      case ge
      with mx show ?thesis by (fastforce simp: key_lt_def)
    qed
  qed
qed

lemma quorum_pos: "1 \<le> quorum_required m"
  by (simp add: quorum_required_def)

lemma sort_desc_Nil_iff: "(sort_desc xs = []) = (xs = [])"
proof
  assume "sort_desc xs = []"
  then have "set xs = {}" using set_sort_desc [of xs] by simp
  then show "xs = []" by simp
next
  assume "xs = []"
  then show "sort_desc xs = []" by (simp add: sort_desc_def)
qed

lemma clean_vote_buffer_fields:
  "vote_buffer (clean_vote_buffer tc m) = filter (\<lambda>v. ts_mono v \<ge> tc - SCORING_WINDOW) (vote_buffer m)"
  "scores (clean_vote_buffer tc m) = scores m" "round_wins (clean_vote_buffer tc m) = round_wins m"
  "remotes (clean_vote_buffer tc m) = remotes m" "gamjeom (clean_vote_buffer tc m) = gamjeom m"
  "ptg_gap (clean_vote_buffer tc m) = ptg_gap m"
  by (simp_all add: clean_vote_buffer_def Let_def)

lemma quorum_required_clean: "quorum_required (clean_vote_buffer tc m) = quorum_required m"
  by (simp add: quorum_required_def clean_vote_buffer_fields)

lemma best_group_Some:
  assumes "best_group tg m = Some (n, p, c, S)"
  shows "S = voters (tg - SCORING_WINDOW) (vote_buffer m) (c, p)"
    and "n = card S"
    and "quorum_required m \<le> int n"
    and "quorum_required m \<le> int (card (voters (tg - SCORING_WINDOW) (vote_buffer m) (c', p')))
          \<Longrightarrow> card (voters (tg - SCORING_WINDOW) (vote_buffer m) (c', p')) < n
              \<or> (card (voters (tg - SCORING_WINDOW) (vote_buffer m) (c', p')) = n \<and> p' \<le> p)"
proof -
  let ?cut = "tg - SCORING_WINDOW"
  let ?gs = "build_groups ?cut (vote_buffer m) []"
  let ?el = "eligible_of (quorum_required m) ?gs"
  from assms obtain rest where srt: "sort_desc ?el = (n, p, c, S) # rest"
    by (auto simp: best_group_def Let_def split: list.splits)
  from hd_sort_desc_max [OF srt]
  have mem: "(n, p, c, S) \<in> set ?el" and mx: "\<forall>y \<in> set ?el. \<not> key_lt (n, p, c, S) y"
    by simp_all
  from mem have grp: "((c, p), S) \<in> set ?gs" and n: "n = card S" and q: "quorum_required m \<le> int (card S)"
    by (auto simp: in_eligible_of)
  from grp show "S = voters ?cut (vote_buffer m) (c, p)"
    by (simp add: in_build_groups)
  from n show "n = card S" .
  from q n show "quorum_required m \<le> int n" by simp
  assume q': "quorum_required m \<le> int (card (voters ?cut (vote_buffer m) (c', p')))"
  let ?S' = "voters ?cut (vote_buffer m) (c', p')"
  from q' quorum_pos [of m] have "?S' \<noteq> {}"
    by auto
  then have "((c', p'), ?S') \<in> set ?gs"
    by (simp add: in_build_groups)
  with q' have "(card ?S', p', c', ?S') \<in> set ?el"
    by (auto simp: in_eligible_of)
  with mx have "\<not> key_lt (n, p, c, S) (card ?S', p', c', ?S')"
    by blast
  then show "card ?S' < n \<or> (card ?S' = n \<and> p' \<le> p)"
    by (auto simp: key_lt_def)
qed

lemma best_group_None_iff:
  "(best_group tg m = None) =
     (\<forall>k. \<not> quorum_required m \<le> int (card (voters (tg - SCORING_WINDOW) (vote_buffer m) k)))"
proof -
  let ?cut = "tg - SCORING_WINDOW"
  let ?gs = "build_groups ?cut (vote_buffer m) []"
  let ?el = "eligible_of (quorum_required m) ?gs"
  have "(best_group tg m = None) = (sort_desc ?el = [])"
    by (simp add: best_group_def Let_def split: list.splits)
  also have "\<dots> = (?el = [])"
    by (rule sort_desc_Nil_iff)
  also have "\<dots> = (\<forall>x. x \<notin> set ?el)"
    by (cases ?el) auto
  also have "\<dots> = (\<forall>k. \<not> quorum_required m \<le> int (card (voters ?cut (vote_buffer m) k)))"
  proof
    assume none: "\<forall>x. x \<notin> set ?el"
    show "\<forall>k. \<not> quorum_required m \<le> int (card (voters ?cut (vote_buffer m) k))"
    proof (intro allI notI)
      fix k :: "color \<times> int"
      assume q: "quorum_required m \<le> int (card (voters ?cut (vote_buffer m) k))"
      with quorum_pos [of m] have "voters ?cut (vote_buffer m) k \<noteq> {}"
        by auto
      then have "(k, voters ?cut (vote_buffer m) k) \<in> set ?gs"
        by (simp add: in_build_groups)
      with q have "(card (voters ?cut (vote_buffer m) k), snd k, fst k, voters ?cut (vote_buffer m) k) \<in> set ?el"
        by (cases k) (auto simp: in_eligible_of)
      with none show False by blast
    qed
  next
    assume "\<forall>k. \<not> quorum_required m \<le> int (card (voters ?cut (vote_buffer m) k))"
    then show "\<forall>x. x \<notin> set ?el"
      by (auto simp: in_eligible_of in_build_groups)
  qed
  finally show ?thesis .
qed

lemma best_group_empty_buffer: "vote_buffer m = [] \<Longrightarrow> best_group tg m = None"
  by (simp add: best_group_None_iff voters_Nil) (use quorum_pos [of m] in linarith)

lemma apply_award_fields:
  "scores (apply_award m c p S) = (scores m)(c := scores m c + p)"
  "vote_buffer (apply_award m c p S) = filter (\<lambda>v. v_sid v \<notin> S) (vote_buffer m)"
  "round_wins (apply_award m c p S) = round_wins m"
  "remotes (apply_award m c p S) = remotes m"
  "ptg_gap (apply_award m c p S) = ptg_gap m"
  "gamjeom (apply_award m c p S) = gamjeom m"
  "history (apply_award m c p S) = history (push_history m (Op_score c p (Some S)))"
  by (simp_all add: apply_award_def push_history_def Let_def)

lemma vote_buffer_check_ptg:
  "vote_buffer (fst (check_ptg_and_finalize_if_needed tp ts m)) = vote_buffer m"
  by (simp add: check_ptg_and_finalize_if_needed_def finalize_round_def color_of_def timer_pause_def
      timer_start_def timer_reset_break_def Let_def split: option.splits)

lemma process_vote_buffer_best:
  "process_vote_buffer tc tg tp ts m =
     (case best_group tg (clean_vote_buffer tc m) of
        None \<Rightarrow> (False, clean_vote_buffer tc m, [])
      | Some (n, pts, color, sids) \<Rightarrow>
          (True,
           fst (check_ptg_and_finalize_if_needed tp ts (apply_award (clean_vote_buffer tc m) color pts sids)),
           snd (check_ptg_and_finalize_if_needed tp ts (apply_award (clean_vote_buffer tc m) color pts sids))
             @ [Ev_ref_score_applied color pts sids, Ev_state]))"
  by (simp add: process_vote_buffer_def Let_def best_group_empty_buffer case_prod_unfold
      split: option.splits)

lemma voters_mono:
  "cutoff \<le> cutoff' \<Longrightarrow> voters cutoff' (filter P buf) k \<subseteq> voters cutoff buf k"
  by (auto simp: voters_def)

lemma voters_removed:
  "voters cutoff (filter (\<lambda>v. v_sid v \<notin> voters cutoff buf k) buf) k = {}"
  by (auto simp: voters_def)

section \<open>Evaluating the example matches\<close>

lemma best_group_same_sid:
  assumes "length (remotes m) = 3" and "\<forall>v \<in> set (vote_buffer m). v_sid v = s"
  shows "best_group tg m = None"
proof -
  have "voters (tg - SCORING_WINDOW) (vote_buffer m) k \<subseteq> {s}" for k
    using assms(2) by (auto simp: voters_def)
  then have "card (voters (tg - SCORING_WINDOW) (vote_buffer m) k) \<le> card {s}" for k
    by (intro card_mono) simp_all
  then have one: "int (card (voters (tg - SCORING_WINDOW) (vote_buffer m) k)) \<le> 1" for k
    by simp
  have q: "quorum_required m = 2"
    using assms(1) by (simp add: quorum_required_div)
  show ?thesis
    unfolding best_group_None_iff
  proof (intro allI)
    fix k
    from one [of k] q
    show "\<not> quorum_required m \<le> int (card (voters (tg - SCORING_WINDOW) (vote_buffer m) k))"
      by linarith
  qed
qed

lemma first_vote_eq:
  "pressed 10 ''A'' ''red'' 2 three_refs = three_refs\<lparr>
      remotes := [(''A'', judge\<lparr>last_activity_mono := Some 10\<rparr>), (''B'', judge), (''C'', judge)],
      vote_buffer := [\<lparr> v_sid = ''A'', v_color = Red, v_points = 2, ts_mono = 10 \<rparr>]\<rparr>"
  by (simp add: pressed_def ref_press_def color_of_def three_refs_fields
      SERVER_SIDE_MAJORITY_def add_vote_to_buffer_def process_vote_buffer_best clean_vote_buffer_def
      SCORING_WINDOW_def best_group_same_sid [where s = "''A''"] judge_def Let_def)

lemma two_votes_eq:
  "two_votes = three_refs\<lparr>
      remotes := [(''A'', judge\<lparr>last_activity_mono := Some (21 / 2)\<rparr>), (''B'', judge), (''C'', judge)],
      vote_buffer := [\<lparr> v_sid = ''A'', v_color = Red, v_points = 2, ts_mono = 10 \<rparr>,
                      \<lparr> v_sid = ''A'', v_color = Blue, v_points = 1, ts_mono = 21 / 2 \<rparr>]\<rparr>"
  by (simp add: two_votes_def first_vote_eq pressed_def ref_press_def color_of_def three_refs_fields
      SERVER_SIDE_MAJORITY_def add_vote_to_buffer_def process_vote_buffer_best clean_vote_buffer_def
      SCORING_WINDOW_def best_group_same_sid [where s = "''A''"] judge_def Let_def)

lemma two_votes_fields:
  "remotes two_votes = [(''A'', judge\<lparr>last_activity_mono := Some (21 / 2)\<rparr>), (''B'', judge), (''C'', judge)]"
  "vote_buffer two_votes = [\<lparr> v_sid = ''A'', v_color = Red, v_points = 2, ts_mono = 10 \<rparr>,
                      \<lparr> v_sid = ''A'', v_color = Blue, v_points = 1, ts_mono = 21 / 2 \<rparr>]"
  "status two_votes = Running" "scores two_votes = (\<lambda>c. 0)" "ptg_gap two_votes = 12"
  "match_password two_votes = ''1234''" "history two_votes = []"
  "timer two_votes = \<lparr> running = False, remaining = 120, last_started_mono = None \<rparr>"
  by (simp_all add: two_votes_eq three_refs_fields)

lemma best_group_third_press:
  assumes "remotes m = [a, b, c]"
    and "vote_buffer m = [\<lparr> v_sid = ''A'', v_color = Red, v_points = 2, ts_mono = 10 \<rparr>,
                      \<lparr> v_sid = ''A'', v_color = Blue, v_points = 1, ts_mono = 21 / 2 \<rparr>,
                      \<lparr> v_sid = ''B'', v_color = Red, v_points = 2, ts_mono = 11 \<rparr>]"
  shows "best_group 11 m = Some (2, 2, Red, {''B'', ''A''})"
  using assms
  by (simp add: best_group_def SCORING_WINDOW_def add_to_group_def eligible_of_def sort_desc_def
      key_lt_def quorum_required_div Let_def)

lemma third_press_fields:
  "scores (pressed 11 ''B'' ''red'' 2 two_votes) Red = 2"
  "vote_buffer (pressed 11 ''B'' ''red'' 2 two_votes) = []"
  by (simp_all add: pressed_def ref_press_def color_of_def two_votes_fields
      SERVER_SIDE_MAJORITY_def add_vote_to_buffer_def process_vote_buffer_best clean_vote_buffer_def
      SCORING_WINDOW_def best_group_third_press apply_award_fields vote_buffer_check_ptg
      check_ptg_and_finalize_if_needed_def push_history_fields Let_def)

lemma undo_award:
  assumes nn: "0 \<le> scores m c"
  shows "scores (fst (operator_undo (apply_award m c p S))) = scores m"
proof -
  have h: "history (apply_award m c p S) \<noteq> []"
    "last (history (apply_award m c p S)) = Op_score c p (Some S)"
    using history_push_history [of m "Op_score c p (Some S)"] by (simp_all add: apply_award_fields)
  from nn show ?thesis
    unfolding undo_score_entry(1) [OF h] by (auto simp: apply_award_fields fun_eq_iff)
qed

section \<open>The quorum award\<close>

text \<open>
  Claim C3, as stated, fails: referee A has buffered votes for red/2 and for blue/1; when
  referee B presses red/2 the group red/2 reaches the quorum and is applied, and the
  buffer is empty afterwards: A's vote for blue/1 does not remain.
\<close>

theorem winning_voters_other_votes_removed_counterexample:
  "vote_buffer two_votes = [\<lparr> v_sid = ''A'', v_color = Red, v_points = 2, ts_mono = 10 \<rparr>,
                            \<lparr> v_sid = ''A'', v_color = Blue, v_points = 1, ts_mono = 21 / 2 \<rparr>]
   \<and> quorum_required two_votes = 2
   \<and> scores (pressed 11 ''B'' ''red'' 2 two_votes) Red = 2
   \<and> vote_buffer (pressed 11 ''B'' ''red'' 2 two_votes) = []"
  by (simp add: third_press_fields two_votes_fields quorum_required_div)

text \<open>
  Claim C3, amended. When \<open>process_vote_buffer\<close> applies the winning group
  (color, points) with voter set \<open>sids\<close>, it increments \<open>scores[color]\<close> by the points,
  pushes the history entry \<open>Op_score color pts\<close> (which undo reverses), removes from the
  buffer every vote whose sid is in \<open>sids\<close>, whatever its colour and points (the buffer
  left is the votes inside the window cast by voters outside the winning set), and then runs
  the point-gap check on that match.
\<close>

theorem award_removes_votes_by_sid:
  assumes "best_group tg (clean_vote_buffer tc m) = Some (n, pts, color, sids)"
  shows "process_vote_buffer tc tg tp ts m =
           (True,
            fst (check_ptg_and_finalize_if_needed tp ts (apply_award (clean_vote_buffer tc m) color pts sids)),
            snd (check_ptg_and_finalize_if_needed tp ts (apply_award (clean_vote_buffer tc m) color pts sids))
              @ [Ev_ref_score_applied color pts sids, Ev_state])
       \<and> sids = voters (tg - SCORING_WINDOW) (vote_buffer (clean_vote_buffer tc m)) (color, pts)
       \<and> scores (apply_award (clean_vote_buffer tc m) color pts sids)
           = (scores m)(color := scores m color + pts)
       \<and> history (apply_award (clean_vote_buffer tc m) color pts sids) \<noteq> []
       \<and> last (history (apply_award (clean_vote_buffer tc m) color pts sids))
           = Op_score color pts (Some sids)
       \<and> (0 \<le> scores m color \<longrightarrow>
            scores (fst (operator_undo (apply_award (clean_vote_buffer tc m) color pts sids))) = scores m)
       \<and> vote_buffer (fst (snd (process_vote_buffer tc tg tp ts m)))
           = filter (\<lambda>v. v_sid v \<notin> sids)
               (filter (\<lambda>v. ts_mono v \<ge> tc - SCORING_WINDOW) (vote_buffer m))"
proof -
  let ?m1 = "clean_vote_buffer tc m"
  let ?m4 = "apply_award ?m1 color pts sids"
  have run: "process_vote_buffer tc tg tp ts m =
           (True, fst (check_ptg_and_finalize_if_needed tp ts ?m4),
            snd (check_ptg_and_finalize_if_needed tp ts ?m4)
              @ [Ev_ref_score_applied color pts sids, Ev_state])"
    using assms by (simp add: process_vote_buffer_best)
  have who: "sids = voters (tg - SCORING_WINDOW) (vote_buffer ?m1) (color, pts)"
    by (rule best_group_Some(1) [OF assms])
  have sc: "scores ?m4 = (scores m)(color := scores m color + pts)"
    by (simp add: apply_award_fields clean_vote_buffer_fields)
  have hist: "history ?m4 \<noteq> []" "last (history ?m4) = Op_score color pts (Some sids)"
    using history_push_history [of ?m1 "Op_score color pts (Some sids)"]
    by (simp_all add: apply_award_fields)
  have undo: "0 \<le> scores m color \<longrightarrow> scores (fst (operator_undo ?m4)) = scores m"
    using undo_award [of ?m1 color pts sids] by (simp add: clean_vote_buffer_fields)
  have buf: "vote_buffer (fst (snd (process_vote_buffer tc tg tp ts m)))
           = filter (\<lambda>v. v_sid v \<notin> sids)
               (filter (\<lambda>v. ts_mono v \<ge> tc - SCORING_WINDOW) (vote_buffer m))"
    by (simp add: run vote_buffer_check_ptg apply_award_fields clean_vote_buffer_fields)
  from run who sc hist undo buf show ?thesis
    by blast
qed

theorem award_removes_votes_by_sid_witness:
  "vote_buffer two_votes = [\<lparr> v_sid = ''A'', v_color = Red, v_points = 2, ts_mono = 10 \<rparr>,
                            \<lparr> v_sid = ''A'', v_color = Blue, v_points = 1, ts_mono = 21 / 2 \<rparr>]
   \<and> fst (process_vote_buffer 11 11 11 11
            (add_vote_to_buffer 11 two_votes ''B'' Red 2))
   \<and> scores (apply_award (clean_vote_buffer 11 (add_vote_to_buffer 11 two_votes ''B'' Red 2))
         Red 2 {''B'', ''A''}) Red = 2
   \<and> vote_buffer (fst (snd (process_vote_buffer 11 11 11 11
            (add_vote_to_buffer 11 two_votes ''B'' Red 2)))) = []"
proof -
  let ?m = "add_vote_to_buffer 11 two_votes ''B'' Red 2"
  have bg: "best_group 11 (clean_vote_buffer 11 ?m) = Some (2, 2, Red, {''B'', ''A''})"
    by (rule best_group_third_press)
      (simp_all add: clean_vote_buffer_fields add_vote_to_buffer_def two_votes_fields SCORING_WINDOW_def)
  have vals: "vote_buffer ?m = vote_buffer two_votes @ [\<lparr> v_sid = ''B'', v_color = Red, v_points = 2, ts_mono = 11 \<rparr>]"
    "scores ?m = (\<lambda>c. 0)"
    by (simp_all add: add_vote_to_buffer_def two_votes_fields)
  note t = award_removes_votes_by_sid [OF bg, of 11 11]
  have applied: "fst (process_vote_buffer 11 11 11 11 ?m)"
    by (simp add: t [THEN conjunct1])
  have sc: "scores (apply_award (clean_vote_buffer 11 ?m) Red 2 {''B'', ''A''}) Red = 2"
    by (simp add: t [THEN conjunct2, THEN conjunct2, THEN conjunct1] vals)
  have buf: "vote_buffer (fst (snd (process_vote_buffer 11 11 11 11 ?m))) = []"
    by (simp add: t [THEN conjunct2, THEN conjunct2, THEN conjunct2, THEN conjunct2,
          THEN conjunct2, THEN conjunct2] vals two_votes_fields SCORING_WINDOW_def)
  from applied sc buf show ?thesis
    by (simp add: two_votes_fields)
qed

lemma two_refs_left_eq:
  "two_refs_left = two_votes\<lparr>
      remotes := [(''A'', judge\<lparr>last_activity_mono := Some (21 / 2)\<rparr>), (''B'', judge)],
      status := Paused\<rparr>"
  by (simp add: two_refs_left_def disconnect_match_def timer_pause_def two_votes_fields Let_def)

lemma two_refs_left_fields:
  "remotes two_refs_left = [(''A'', judge\<lparr>last_activity_mono := Some (21 / 2)\<rparr>), (''B'', judge)]"
  "vote_buffer two_refs_left = [\<lparr> v_sid = ''A'', v_color = Red, v_points = 2, ts_mono = 10 \<rparr>,
                      \<lparr> v_sid = ''A'', v_color = Blue, v_points = 1, ts_mono = 21 / 2 \<rparr>]"
  "scores two_refs_left = (\<lambda>c. 0)" "ptg_gap two_refs_left = 12"
  by (simp_all add: two_refs_left_eq two_votes_fields)

lemma best_group_two_refs_left:
  "best_group 11 (clean_vote_buffer 11 two_refs_left) = Some (1, 2, Red, {''A''})"
  by (simp add: best_group_def clean_vote_buffer_def two_refs_left_fields SCORING_WINDOW_def
      add_to_group_def eligible_of_def sort_desc_def key_lt_def quorum_required_div Let_def)

lemma award_two_refs_left:
  "fst (process_vote_buffer 11 11 11 11 two_refs_left)"
  "scores (fst (snd (process_vote_buffer 11 11 11 11 two_refs_left))) = (\<lambda>c. 0)(Red := 2)"
  "vote_buffer (fst (snd (process_vote_buffer 11 11 11 11 two_refs_left))) = []"
  by (simp_all add: process_vote_buffer_best best_group_two_refs_left apply_award_fields
      vote_buffer_check_ptg clean_vote_buffer_fields two_refs_left_fields SCORING_WINDOW_def
      check_ptg_and_finalize_if_needed_def)

lemma process_empty_buffer:
  "vote_buffer m = [] \<Longrightarrow> \<not> fst (process_vote_buffer tc tg tp ts m)"
  by (simp add: process_vote_buffer_def clean_vote_buffer_def Let_def)

text \<open>
  Claim C6, as stated, fails. The periodic driver \<open>timer_loop\<close> calls
  \<open>process_vote_buffer\<close> on every match at every tick, whatever the status. With two
  referees left (quorum 1) and referee A's votes for red/2 and blue/1 in the window, both
  groups reach the quorum; the evaluation applies red/2
  (equal counts, higher points) and removes all of A's votes, so the group blue/1, which
  had reached the quorum, is not applied then and can never be: blue's score is still 0,
  the buffer is empty and the next evaluation applies nothing.
\<close>

theorem qualifying_group_never_applied_counterexample:
  "quorum_required two_refs_left = 1
   \<and> voters (11 - SCORING_WINDOW) (vote_buffer (clean_vote_buffer 11 two_refs_left)) (Blue, 1) = {''A''}
   \<and> fst (process_vote_buffer 11 11 11 11 two_refs_left)
   \<and> scores (fst (snd (process_vote_buffer 11 11 11 11 two_refs_left))) Red = 2
   \<and> scores (fst (snd (process_vote_buffer 11 11 11 11 two_refs_left))) Blue = 0
   \<and> vote_buffer (fst (snd (process_vote_buffer 11 11 11 11 two_refs_left))) = []
   \<and> \<not> fst (process_vote_buffer 11 11 11 11 (fst (snd (process_vote_buffer 11 11 11 11 two_refs_left))))"
proof -
  have q: "quorum_required two_refs_left = 1"
    by (simp add: quorum_required_div two_refs_left_fields)
  have v: "voters (11 - SCORING_WINDOW) (vote_buffer (clean_vote_buffer 11 two_refs_left)) (Blue, 1) = {''A''}"
    by (simp add: clean_vote_buffer_fields two_refs_left_fields SCORING_WINDOW_def voters_Cons voters_Nil)
  from q v show ?thesis
    by (simp add: award_two_refs_left process_empty_buffer)
qed

text \<open>
  Claim C6, amended. The quorum is \<open>max 1 (ceil (R / 2))\<close> for \<open>R\<close> referees. One evaluation
  applies a group exactly when some (color, points) group has, inside the window, at least
  a quorum of distinct voters (a voter counts once per group, however often he voted), and
  it then applies one group only: its voter count is at least that of every qualifying
  group, and among those of equal count its points are the highest; the score is
  incremented once by its points. All votes of its voters leave the buffer, so in any
  later evaluation of the same buffer the applied group has no voter left: it is never
  applied twice from the same votes. (A qualifying group that is not selected is not
  applied in that evaluation.)
\<close>

theorem quorum_award_largest_group_once:
  "quorum_required m = max 1 \<lceil>real (length (remotes m)) / 2\<rceil>
   \<and> fst (process_vote_buffer tc tg tp ts m)
       = (\<exists>k. quorum_required m
              \<le> int (card (voters (tg - SCORING_WINDOW) (vote_buffer (clean_vote_buffer tc m)) k)))
   \<and> (best_group tg (clean_vote_buffer tc m) = Some (n, pts, color, sids) \<longrightarrow>
        sids = voters (tg - SCORING_WINDOW) (vote_buffer (clean_vote_buffer tc m)) (color, pts)
      \<and> n = card sids
      \<and> quorum_required m \<le> int n
      \<and> (\<forall>c' p'.
            quorum_required m
              \<le> int (card (voters (tg - SCORING_WINDOW) (vote_buffer (clean_vote_buffer tc m)) (c', p')))
            \<longrightarrow> card (voters (tg - SCORING_WINDOW) (vote_buffer (clean_vote_buffer tc m)) (c', p')) < n
                \<or> (card (voters (tg - SCORING_WINDOW) (vote_buffer (clean_vote_buffer tc m)) (c', p')) = n
                    \<and> p' \<le> pts))
      \<and> process_vote_buffer tc tg tp ts m =
           (True,
            fst (check_ptg_and_finalize_if_needed tp ts (apply_award (clean_vote_buffer tc m) color pts sids)),
            snd (check_ptg_and_finalize_if_needed tp ts (apply_award (clean_vote_buffer tc m) color pts sids))
              @ [Ev_ref_score_applied color pts sids, Ev_state])
      \<and> scores (apply_award (clean_vote_buffer tc m) color pts sids)
           = (scores m)(color := scores m color + pts)
      \<and> (\<forall>tc' tg'. tg \<le> tg' \<longrightarrow>
            voters (tg' - SCORING_WINDOW)
              (vote_buffer (clean_vote_buffer tc' (fst (snd (process_vote_buffer tc tg tp ts m)))))
              (color, pts) = {}))"
proof (intro conjI impI)
  let ?m1 = "clean_vote_buffer tc m"
  let ?cut = "tg - SCORING_WINDOW"
  show "quorum_required m = max 1 \<lceil>real (length (remotes m)) / 2\<rceil>"
    by (simp add: quorum_required_def)
  show "fst (process_vote_buffer tc tg tp ts m)
       = (\<exists>k. quorum_required m \<le> int (card (voters ?cut (vote_buffer ?m1) k)))"
  proof (cases "best_group tg ?m1")
    case None
    then show ?thesis
      using best_group_None_iff [of tg ?m1]
      by (simp add: process_vote_buffer_best quorum_required_clean)
  next
    case (Some x)
    then have "\<exists>k. quorum_required m \<le> int (card (voters ?cut (vote_buffer ?m1) k))"
      using best_group_None_iff [of tg ?m1] by (simp add: quorum_required_clean)
    with Some show ?thesis
      by (simp add: process_vote_buffer_best split: prod.splits)
  qed
  assume bg: "best_group tg ?m1 = Some (n, pts, color, sids)"
  show who: "sids = voters ?cut (vote_buffer ?m1) (color, pts)"
    by (rule best_group_Some(1) [OF bg])
  show "n = card sids"
    by (rule best_group_Some(2) [OF bg])
  show "quorum_required m \<le> int n"
    using best_group_Some(3) [OF bg] by (simp add: quorum_required_clean)
  show "\<forall>c' p'. quorum_required m \<le> int (card (voters ?cut (vote_buffer ?m1) (c', p')))
            \<longrightarrow> card (voters ?cut (vote_buffer ?m1) (c', p')) < n
                \<or> (card (voters ?cut (vote_buffer ?m1) (c', p')) = n \<and> p' \<le> pts)"
    using best_group_Some(4) [OF bg] by (simp add: quorum_required_clean)
  show run: "process_vote_buffer tc tg tp ts m =
           (True, fst (check_ptg_and_finalize_if_needed tp ts (apply_award ?m1 color pts sids)),
            snd (check_ptg_and_finalize_if_needed tp ts (apply_award ?m1 color pts sids))
              @ [Ev_ref_score_applied color pts sids, Ev_state])"
    using bg by (simp add: process_vote_buffer_best)
  show "scores (apply_award ?m1 color pts sids) = (scores m)(color := scores m color + pts)"
    by (simp add: apply_award_fields clean_vote_buffer_fields)
  show "\<forall>tc' tg'. tg \<le> tg' \<longrightarrow>
            voters (tg' - SCORING_WINDOW)
              (vote_buffer (clean_vote_buffer tc' (fst (snd (process_vote_buffer tc tg tp ts m)))))
              (color, pts) = {}"
  proof (intro allI impI)
    fix tc' tg' :: real
    assume le: "tg \<le> tg'"
    have buf: "vote_buffer (clean_vote_buffer tc' (fst (snd (process_vote_buffer tc tg tp ts m))))
        = filter (\<lambda>v. ts_mono v \<ge> tc' - SCORING_WINDOW)
            (filter (\<lambda>v. v_sid v \<notin> sids) (vote_buffer ?m1))"
      by (simp add: run clean_vote_buffer_fields vote_buffer_check_ptg apply_award_fields)
    from le have "voters (tg' - SCORING_WINDOW)
            (filter (\<lambda>v. ts_mono v \<ge> tc' - SCORING_WINDOW)
               (filter (\<lambda>v. v_sid v \<notin> sids) (vote_buffer ?m1))) (color, pts)
          \<subseteq> voters ?cut (filter (\<lambda>v. v_sid v \<notin> sids) (vote_buffer ?m1)) (color, pts)"
      by (intro voters_mono) simp
    also have "\<dots> = {}"
      unfolding who by (rule voters_removed)
    finally show "voters (tg' - SCORING_WINDOW)
              (vote_buffer (clean_vote_buffer tc' (fst (snd (process_vote_buffer tc tg tp ts m)))))
              (color, pts) = {}"
      by (simp add: buf)
  qed
qed

theorem quorum_award_largest_group_once_witness:
  "best_group 11 (clean_vote_buffer 11 two_refs_left) = Some (1, 2, Red, {''A''})
   \<and> quorum_required two_refs_left = 1
   \<and> fst (process_vote_buffer 11 11 11 11 two_refs_left)
   \<and> card (voters (11 - SCORING_WINDOW) (vote_buffer (clean_vote_buffer 11 two_refs_left)) (Red, 2)) = 1
   \<and> scores (apply_award (clean_vote_buffer 11 two_refs_left) Red 2 {''A''}) Red = 2
   \<and> voters (12 - SCORING_WINDOW)
        (vote_buffer (clean_vote_buffer 12 (fst (snd (process_vote_buffer 11 11 11 11 two_refs_left)))))
        (Red, 2) = {}"
proof -
  note bg = best_group_two_refs_left
  note t = quorum_award_largest_group_once [of two_refs_left 11 11 11 11 1 2 Red "{''A''}"]
  from t bg have parts:
    "{''A''} = voters (11 - SCORING_WINDOW) (vote_buffer (clean_vote_buffer 11 two_refs_left)) (Red, 2)"
    "quorum_required two_refs_left \<le> int 1"
    "scores (apply_award (clean_vote_buffer 11 two_refs_left) Red 2 {''A''})
       = (scores two_refs_left)(Red := scores two_refs_left Red + 2)"
    "\<forall>tc' tg'. 11 \<le> tg' \<longrightarrow>
        voters (tg' - SCORING_WINDOW)
          (vote_buffer (clean_vote_buffer tc' (fst (snd (process_vote_buffer 11 11 11 11 two_refs_left)))))
          (Red, 2) = {}"
    "process_vote_buffer 11 11 11 11 two_refs_left =
           (True,
            fst (check_ptg_and_finalize_if_needed 11 11 (apply_award (clean_vote_buffer 11 two_refs_left) Red 2 {''A''})),
            snd (check_ptg_and_finalize_if_needed 11 11 (apply_award (clean_vote_buffer 11 two_refs_left) Red 2 {''A''}))
              @ [Ev_ref_score_applied Red 2 {''A''}, Ev_state])"
    by blast+
  have q: "quorum_required two_refs_left = 1"
    using parts(2) quorum_pos [of two_refs_left] by simp
  have c: "card (voters (11 - SCORING_WINDOW) (vote_buffer (clean_vote_buffer 11 two_refs_left)) (Red, 2)) = 1"
    by (simp add: parts(1) [symmetric])
  have l: "voters (12 - SCORING_WINDOW)
        (vote_buffer (clean_vote_buffer 12 (fst (snd (process_vote_buffer 11 11 11 11 two_refs_left)))))
        (Red, 2) = {}"
    using parts(4) by simp
  have a: "fst (process_vote_buffer 11 11 11 11 two_refs_left)"
    by (simp add: parts(5))
  have s: "scores (apply_award (clean_vote_buffer 11 two_refs_left) Red 2 {''A''}) Red = 2"
    by (simp add: parts(3) two_refs_left_fields)
  from bg q c l a s show ?thesis
    by simp
qed

section \<open>Undo\<close>

lemma adjust_plus3:
  "operator_adjust_score 2 2 ''red'' (Inr 3) three_refs
     = Inr (three_refs\<lparr>history := [Op_score Red 3 None], scores := (\<lambda>c. 0)(Red := 3)\<rparr>, [Ev_state])"
  by (simp add: operator_adjust_score_def color_of_def push_history_def
      check_ptg_and_finalize_if_needed_def three_refs_fields Let_def)

lemma plus3_eq:
  "plus3 = three_refs\<lparr>history := [Op_score Red 3 None], scores := (\<lambda>c. 0)(Red := 3)\<rparr>"
  by (simp add: plus3_def adjusted_def adjust_plus3)

lemma plus3_fields:
  "scores plus3 = (\<lambda>c. 0)(Red := 3)" "history plus3 = [Op_score Red 3 None]"
  "ptg_gap plus3 = 12" "round_wins plus3 = round_wins three_refs"
  by (simp_all add: plus3_eq three_refs_fields)

lemma minus5_fields:
  "scores (adjusted 3 ''red'' (- 5) plus3) Red = 0"
  "history (adjusted 3 ''red'' (- 5) plus3) = [Op_score Red 3 None, Op_score Red (- 5) None]"
  by (simp_all add: adjusted_def operator_adjust_score_def color_of_def push_history_def
      check_ptg_and_finalize_if_needed_def plus3_fields Let_def)

text \<open>
  Claim C4, as stated, fails: with red at 3, an adjustment of -5 is floored and gives 0;
  undo then adds the recorded 5 back and gives 5, not the 3 held before the adjustment.
\<close>

theorem undo_after_clamped_adjust_counterexample:
  "scores plus3 Red = 3
   \<and> scores (adjusted 3 ''red'' (- 5) plus3) Red = 0
   \<and> scores (fst (operator_undo (adjusted 3 ''red'' (- 5) plus3))) Red = 5"
  by (simp add: plus3_fields minus5_fields operator_undo_def Let_def)

lemma undo_quorum_award:
  assumes run: "process_vote_buffer tc tg tp ts m = (True, m', evs)"
    and nn: "scores_nonneg m" and nofin: "round_wins m' = round_wins m"
  shows "scores (fst (operator_undo m')) = scores m"
proof -
  let ?m1 = "clean_vote_buffer tc m"
  from run obtain n p c S where bg: "best_group tg ?m1 = Some (n, p, c, S)"
    by (auto simp: process_vote_buffer_best split: option.splits)
  let ?m4 = "apply_award ?m1 c p S"
  from run bg have m': "m' = fst (check_ptg_and_finalize_if_needed tp ts ?m4)"
    by (simp add: process_vote_buffer_best)
  have "round_wins ?m4 = round_wins m"
    by (simp add: apply_award_fields clean_vote_buffer_fields)
  with nofin m' have "check_ptg_and_finalize_if_needed tp ts ?m4 = (?m4, [])"
    by (intro check_ptg_unchanged) simp
  with m' have eq: "m' = ?m4" by simp
  have "0 \<le> scores ?m1 c"
    using nn by (simp add: scores_nonneg_def clean_vote_buffer_fields)
  from undo_award [OF this, of p S] show ?thesis
    by (simp add: eq clean_vote_buffer_fields)
qed

text \<open>
  Claim C4, amended. In a match with non-negative scores and penalty counts, for an
  applied score adjustment that was not floored at 0, an applied penalty, and an applied
  quorum award, each without a round finalize (the round wins are as before), undo right
  after the operation restores the scores held before it (and, for a penalty, the penalty
  counts). Undo on an empty history sends the notice "Nothing to undo" to the caller and
  returns the match as it is.
\<close>

theorem undo_restores_unclamped_scores:
  "(color_of cn = Some c \<and> delta \<noteq> 0 \<and> 0 \<le> scores m c + delta \<and> scores_nonneg m
      \<and> operator_adjust_score tp ts cn (Inr delta) m = Inr (ma, eva)
      \<and> round_wins ma = round_wins m
     \<longrightarrow> scores (fst (operator_undo ma)) = scores m)
   \<and> (color_of cn = Some c \<and> scores_nonneg m
      \<and> operator_gamjeom tp ts cn m = (mg, evg) \<and> round_wins mg = round_wins m
     \<longrightarrow> scores (fst (operator_undo mg)) = scores m
         \<and> gamjeom (fst (operator_undo mg)) = gamjeom m)
   \<and> (scores_nonneg m
      \<and> process_vote_buffer tc tg tp ts m = (True, mq, evq) \<and> round_wins mq = round_wins m
     \<longrightarrow> scores (fst (operator_undo mq)) = scores m)
   \<and> (history m = [] \<longrightarrow> operator_undo m = (m, [Ev_toast ''Nothing to undo'']))"
proof (intro conjI impI)
  assume "color_of cn = Some c \<and> delta \<noteq> 0 \<and> 0 \<le> scores m c + delta \<and> scores_nonneg m
      \<and> operator_adjust_score tp ts cn (Inr delta) m = Inr (ma, eva)
      \<and> round_wins ma = round_wins m"
  then show "scores (fst (operator_undo ma)) = scores m"
    using undo_adjust [of cn c delta m tp ts ma eva] by blast
next
  assume a: "color_of cn = Some c \<and> scores_nonneg m
      \<and> operator_gamjeom tp ts cn m = (mg, evg) \<and> round_wins mg = round_wins m"
  then show "scores (fst (operator_undo mg)) = scores m"
    using undo_gamjeom [of cn c m tp ts mg evg] by blast
  from a show "gamjeom (fst (operator_undo mg)) = gamjeom m"
    using undo_gamjeom [of cn c m tp ts mg evg] by blast
next
  assume "scores_nonneg m
      \<and> process_vote_buffer tc tg tp ts m = (True, mq, evq) \<and> round_wins mq = round_wins m"
  then show "scores (fst (operator_undo mq)) = scores m"
    using undo_quorum_award [of tc tg tp ts m mq evq] by blast
next
  assume "history m = []"
  then show "operator_undo m = (m, [Ev_toast ''Nothing to undo''])"
    by (simp add: operator_undo_def)
qed

theorem undo_restores_unclamped_scores_witness:
  "scores three_refs Red = 0
   \<and> scores plus3 Red = 3
   \<and> scores (fst (operator_undo plus3)) Red = 0
   \<and> history three_refs = []
   \<and> operator_undo three_refs = (three_refs, [Ev_toast ''Nothing to undo''])"
proof -
  have col: "color_of ''red'' = Some Red"
    by (simp add: color_of_def)
  have nn: "scores_nonneg three_refs"
    by (simp add: scores_nonneg_def three_refs_fields)
  have run: "operator_adjust_score 2 2 ''red'' (Inr 3) three_refs = Inr (plus3, [Ev_state])"
    by (simp add: adjust_plus3 plus3_eq)
  note t = undo_restores_unclamped_scores [of "''red''" Red 3 three_refs 2 2 plus3 "[Ev_state]"]
  have "scores (fst (operator_undo plus3)) = scores three_refs"
    using t [THEN conjunct1] col nn run by (simp add: plus3_fields three_refs_fields)
  moreover have "operator_undo three_refs = (three_refs, [Ev_toast ''Nothing to undo''])"
    using t [THEN conjunct2, THEN conjunct2, THEN conjunct2] by (simp add: three_refs_fields)
  ultimately show ?thesis
    by (simp add: plus3_fields three_refs_fields)
qed

end
